theory Spec2Isabelle
  imports Main
begin

section \<open>Data model of Info.go\<close>

text \<open>
  Go's \<open>int\<close> is modelled as \<open>int\<close>: the counters of this file (sequence numbers, tries,
  job counts) stay far from the 64-bit bounds, and the one place where the bounds show
  (\<open>strconv.Atoi\<close>) writes them out. A \<open>[]byte\<close> is a \<open>char list\<close> (a \<open>char\<close> is one byte),
  a \<open>time.Duration\<close> is its number of nanoseconds.
\<close>

type_synonym bytes = "char list"

definition FragMaxTries :: int where
  "FragMaxTries = 10"

definition DtypeAudio :: string where
  "DtypeAudio = ''audio''"

definition DtypeVideo :: string where
  "DtypeVideo = ''video''"

definition BufferSize :: nat where
  "BufferSize = 8192"

text \<open>Info to be sent through the progress queue.\<close>

record ProgressInfo =
  P_DataType :: string
  ByteCount :: int
  P_MaxSeq :: int

text \<open>
  Fragment information/data. \<open>Data\<close> is a \<open>*bytes.Buffer\<close>: \<open>None\<close> is the nil pointer
  (the fragment was spilled to a file), \<open>Some bs\<close> a buffer whose unread part is \<open>bs\<close>.
\<close>

record Fragment =
  Seq :: int
  FileName :: string
  XHeadSeqNum :: int
  Data :: "bytes option"

record seqChanInfo =
  CurSequence :: int
  MaxSequence :: int

text \<open>For sharing state between some functions used for downloading threads.\<close>

record fragThreadState =
  Name :: string
  Url :: string
  BaseFilePath :: string
  DataType :: string
  SeqNum :: int
  MaxSeq :: int
  Tries :: int
  FullRetries :: int
  Is403 :: bool
  ToFile :: bool
  SleepTime :: int

record MediaDLInfo =
  ActiveJobs :: int
  DownloadURL :: string
  BasePath :: string
  M_DataType :: string
  Finished :: bool
  URLHost :: string

text \<open>
  The fields of \<open>DownloadInfo\<close> that the download engine reads or writes. \<open>MDLInfo\<close> is a
  Go map with the two keys \<open>audio\<close> and \<open>video\<close> that \<open>NewDownloadInfo\<close> creates; nothing
  removes a key, so it is a total function on the data types used.
\<close>

record DownloadInfo =
  Stopping :: bool
  InProgress :: bool
  Live :: bool
  Unavailable :: bool
  GVideoDDL :: bool
  FragFiles :: bool
  Jobs :: int
  TargetDuration :: int
  MDLInfo :: "string \<Rightarrow> MediaDLInfo"

definition emptyMediaDLInfo :: MediaDLInfo where
  "emptyMediaDLInfo =
     \<lparr>ActiveJobs = 0, DownloadURL = [], BasePath = [], M_DataType = [],
      Finished = False, URLHost = []\<rparr>"

definition NewDownloadInfo :: DownloadInfo where
  "NewDownloadInfo =
     \<lparr>Stopping = False, InProgress = False, Live = False, Unavailable = False,
      GVideoDDL = False, FragFiles = True, Jobs = 1, TargetDuration = 5,
      MDLInfo = (\<lambda>_. emptyMediaDLInfo)\<rparr>"

definition NewFragThreadState ::
  "string \<Rightarrow> string \<Rightarrow> string \<Rightarrow> string \<Rightarrow> bool \<Rightarrow> int \<Rightarrow> fragThreadState" where
  "NewFragThreadState name baseFPath dataType url toFile sleepTime =
     \<lparr>Name = name, Url = url, BaseFilePath = baseFPath, DataType = dataType,
      SeqNum = 0, MaxSeq = 0, Tries = 0, FullRetries = 0, Is403 = False,
      ToFile = toFile, SleepTime = sleepTime\<rparr>"

section \<open>The mutex-guarded accessors\<close>

text \<open>
  Every accessor takes its lock, reads or writes one record and releases the lock, so
  each is one atomic step on the shared state: a function of the state.
\<close>

definition IsStopping :: "DownloadInfo \<Rightarrow> bool" where
  "IsStopping di = Stopping di"

definition IsLive :: "DownloadInfo \<Rightarrow> bool" where
  "IsLive di = Live di"

definition IsUnavailable :: "DownloadInfo \<Rightarrow> bool" where
  "IsUnavailable di = Unavailable di"

definition GetActiveJobCount :: "DownloadInfo \<Rightarrow> string \<Rightarrow> int" where
  "GetActiveJobCount di dataType = ActiveJobs (MDLInfo di dataType)"

definition IncrementJobs :: "string \<Rightarrow> DownloadInfo \<Rightarrow> DownloadInfo" where
  "IncrementJobs dataType di =
     di\<lparr>MDLInfo := (MDLInfo di)(dataType :=
           (MDLInfo di dataType)\<lparr>ActiveJobs := ActiveJobs (MDLInfo di dataType) + 1\<rparr>)\<rparr>"

definition DecrementJobs :: "string \<Rightarrow> DownloadInfo \<Rightarrow> DownloadInfo" where
  "DecrementJobs dataType di =
     di\<lparr>MDLInfo := (MDLInfo di)(dataType :=
           (MDLInfo di dataType)\<lparr>ActiveJobs := ActiveJobs (MDLInfo di dataType) - 1\<rparr>)\<rparr>"

definition GetDownloadUrl :: "DownloadInfo \<Rightarrow> string \<Rightarrow> string" where
  "GetDownloadUrl di dataType = DownloadURL (MDLInfo di dataType)"

definition GetDownloadUrlHost :: "DownloadInfo \<Rightarrow> string \<Rightarrow> string" where
  "GetDownloadUrlHost di dataType = URLHost (MDLInfo di dataType)"

definition GetBaseFilePath :: "DownloadInfo \<Rightarrow> string \<Rightarrow> string" where
  "GetBaseFilePath di dataType = BasePath (MDLInfo di dataType)"

definition SetFinished :: "string \<Rightarrow> DownloadInfo \<Rightarrow> DownloadInfo" where
  "SetFinished dataType di =
     di\<lparr>MDLInfo := (MDLInfo di)(dataType := (MDLInfo di dataType)\<lparr>Finished := True\<rparr>)\<rparr>"

definition IsFinished :: "DownloadInfo \<Rightarrow> string \<Rightarrow> bool" where
  "IsFinished di dataType = Finished (MDLInfo di dataType)"

definition Stop :: "DownloadInfo \<Rightarrow> DownloadInfo" where
  "Stop di = SetFinished DtypeVideo (SetFinished DtypeAudio (di\<lparr>Stopping := True\<rparr>))"

text \<open>
  \<open>SetDownloadUrl\<close> calls \<open>url.Parse\<close> of Go's \<open>net/url\<close>, which is not part of this
  program: it is the parameter \<open>url_Parse\<close>, \<open>None\<close> when Parse returns an error and
  \<open>Some h\<close> when it returns a URL whose \<open>Host\<close> is \<open>h\<close>.
\<close>

definition SetDownloadUrl ::
  "(string \<Rightarrow> string option) \<Rightarrow> string \<Rightarrow> string \<Rightarrow> DownloadInfo \<Rightarrow> DownloadInfo" where
  "SetDownloadUrl url_Parse dataType dlURL di =
     (let m = MDLInfo di dataType;
          m1 = (case url_Parse dlURL of
                  Some host \<Rightarrow> m\<lparr>URLHost := host\<rparr>
                | None \<Rightarrow> m)
      in di\<lparr>MDLInfo := (MDLInfo di)(dataType := m1\<lparr>DownloadURL := dlURL\<rparr>)\<rparr>)"

text \<open>
  A model of \<open>url.Parse\<close> for the checks below. Parse cuts a fragment off at the first
  \<open>#\<close>, rejects a string that holds an ASCII control byte (below 0x20, or 0x7f), takes
  the authority between \<open>//\<close> and the next \<open>/\<close> or \<open>?\<close> as the host, and rejects a
  path in which a \<open>%\<close> is not followed by two hexadecimal digits (\<open>setPath\<close>,
  \<open>unescape\<close>). The model has these steps and leaves the other checks of Parse (scheme,
  user info, port, host characters) out.
\<close>

definition stringContainsCTLByte :: "string \<Rightarrow> bool" where
  "stringContainsCTLByte s = (\<exists>b \<in> set s. of_char b < (32::nat) \<or> of_char b = (127::nat))"

definition ishex :: "char \<Rightarrow> bool" where
  "ishex c = (c \<in> set ''0123456789abcdefABCDEF'')"

fun bad_escape :: "string \<Rightarrow> bool" where
  "bad_escape [] = False"
| "bad_escape (c # s) =
     (if c = CHR ''%'' then
        (case s of
           a # b # r \<Rightarrow> (if ishex a \<and> ishex b then bad_escape r else True)
         | _ \<Rightarrow> True)
      else bad_escape s)"

fun after_slashes :: "string \<Rightarrow> string" where
  "after_slashes [] = []"
| "after_slashes [c] = []"
| "after_slashes (c # d # cs) =
     (if c = CHR ''/'' \<and> d = CHR ''/'' then cs else after_slashes (d # cs))"

definition url_Parse_model :: "string \<Rightarrow> string option" where
  "url_Parse_model rawURL =
     (let u = takeWhile (\<lambda>c. c \<noteq> CHR ''#'') rawURL;
          rest = after_slashes u;
          host = takeWhile (\<lambda>c. c \<noteq> CHR ''/'' \<and> c \<noteq> CHR ''?'') rest;
          path = takeWhile (\<lambda>c. c \<noteq> CHR ''?'')
                   (dropWhile (\<lambda>c. c \<noteq> CHR ''/'' \<and> c \<noteq> CHR ''?'') rest)
      in if stringContainsCTLByte u then None
         else if bad_escape path then None
         else Some host)"

section \<open>The Worker: \<open>downloadFragment\<close> and \<open>DownloadFrags\<close>\<close>

subsection \<open>Decimal integers of Go's library\<close>

text \<open>
  \<open>strconv.Atoi\<close> on a 64-bit platform: an optional sign, then one or more decimal digits.
  The result is the value and whether the error is nil. A syntax error gives 0; a value
  out of the int64 range gives the nearest bound, with an error.
\<close>

definition is_digit :: "char \<Rightarrow> bool" where
  "is_digit ch = ((48::nat) \<le> of_char ch \<and> of_char ch \<le> (57::nat))"

definition digit_val :: "char \<Rightarrow> int" where
  "digit_val ch = int (of_char ch) - 48"

definition digits_val :: "string \<Rightarrow> int" where
  "digits_val s = foldl (\<lambda>n ch. n * 10 + digit_val ch) 0 s"

definition Atoi_body :: "bool \<Rightarrow> string \<Rightarrow> int \<times> bool" where
  "Atoi_body neg s =
     (if s = [] \<or> \<not> list_all is_digit s then (0, False)
      else let un = digits_val s
           in if \<not> neg \<and> un \<ge> 2 ^ 63 then (2 ^ 63 - 1, False)
              else if neg \<and> un > 2 ^ 63 then (- (2 ^ 63), False)
              else (if neg then - un else un, True))"

fun Atoi :: "string \<Rightarrow> int \<times> bool" where
  "Atoi [] = (0, False)"
| "Atoi (c # s) =
     (if c = CHR ''-'' then Atoi_body True s
      else if c = CHR ''+'' then Atoi_body False s
      else Atoi_body False (c # s))"

text \<open>\<open>strconv.Itoa\<close>, as the \<open>%d\<close> verb of \<open>fmt.Sprintf\<close> prints an int.\<close>

definition digit_char :: "nat \<Rightarrow> char" where
  "digit_char n = ''0123456789'' ! n"

fun nat_digits :: "nat \<Rightarrow> string" where
  "nat_digits n = (if n < 10 then [digit_char n] else nat_digits (n div 10) @ [digit_char (n mod 10)])"

declare nat_digits.simps [simp del]

definition Itoa :: "int \<Rightarrow> string" where
  "Itoa i = (if i < 0 then CHR ''-'' # nat_digits (nat (- i)) else nat_digits (nat i))"

subsection \<open>What a Worker sees of the outside world\<close>

text \<open>
  One HTTP exchange, as \<open>downloadFragment\<close> looks at it: the status code, the body that
  \<open>io.ReadAll\<close> returns (\<open>None\<close> when it returns an error) and the \<open>X-Head-Seqnum\<close> header
  (\<open>None\<close> when the response has none).
\<close>

record http_response =
  StatusCode :: int
  ReadAll :: "bytes option"
  X_Head_Seqnum :: "string option"

text \<open>
  The world at one fetch attempt: the shared \<open>DownloadInfo\<close> as the other threads have
  left it, whether \<open>http.NewRequest\<close> returned a request, the outcome of \<open>client.Do\<close> or
  \<open>client.Get\<close> (\<open>None\<close> for a transport error), and whether \<open>os.WriteFile\<close> succeeds.
\<close>

record world =
  w_di :: DownloadInfo
  NewRequest_ok :: bool
  Do :: "http_response option"
  WriteFile_ok :: bool

text \<open>
  The collaborator hooks are not in Info.go; they are parameters. After the
  specification, \<open>HandleFragDownloadError\<close> only observes and logs,
  \<open>HandleFragHttpError\<close> may set \<open>Is403\<close> (it returns the new value of the flag) and
  \<open>ContinueFragmentDownload\<close> returns the decision to keep retrying.
\<close>

record hooks =
  HandleFragHttpError :: "DownloadInfo \<Rightarrow> fragThreadState \<Rightarrow> int \<Rightarrow> bool"
  ContinueFragmentDownload :: "DownloadInfo \<Rightarrow> fragThreadState \<Rightarrow> bool"

text \<open>
  What a Worker does to the outside world. \<open>Get u n h\<close> is the request for
  \<open>fmt.Sprintf(u, n)\<close>, kept as its two arguments, with \<open>h\<close> the value of the \<open>Host\<close>
  header when the Worker adds one.
\<close>

datatype event =
    Get string int "string option"
  | Sleep int
  | WriteFile string bytes
  | TryDelete string

definition Header_Get :: "string option \<Rightarrow> string" where
  "Header_Get h = (case h of None \<Rightarrow> [] | Some v \<Rightarrow> v)"

definition headerSeqnum_of :: "string \<Rightarrow> int" where
  "headerSeqnum_of headerSeqnumStr =
     (if length headerSeqnumStr > 0 then fst (Atoi headerSeqnumStr) else - 1)"

definition fname_of :: "fragThreadState \<Rightarrow> string" where
  "fname_of state = BaseFilePath state @ ''.frag'' @ Itoa (SeqNum state) @ ''.ts''"

subsection \<open>One fetch attempt\<close>

datatype attempt_result =
    Retry fragThreadState "event list"
  | Return fragThreadState "Fragment option" "event list"

text \<open>
  The four lines that end every failed attempt: count the try, ask the hook, sleep,
  continue. \<open>evs\<close> are the events of the attempt so far, \<open>cleanup\<close> what is done before
  giving up (the removal of a partial spill file).
\<close>

definition retry ::
  "hooks \<Rightarrow> DownloadInfo \<Rightarrow> fragThreadState \<Rightarrow> event list \<Rightarrow> event list \<Rightarrow> attempt_result" where
  "retry h di state evs cleanup =
     (let state1 = state\<lparr>Tries := Tries state + 1\<rparr>
      in if \<not> ContinueFragmentDownload h di state1 then Return state1 None (evs @ cleanup)
         else Retry state1 (evs @ [Sleep (SleepTime state1)]))"

definition request_of :: "DownloadInfo \<Rightarrow> world \<Rightarrow> fragThreadState \<Rightarrow> event" where
  "request_of di w state =
     (let host = GetDownloadUrlHost di (DataType state)
      in Get (Url state) (SeqNum state)
           (if NewRequest_ok w \<and> length host > 0 then Some host else None))"

definition attempt :: "hooks \<Rightarrow> world \<Rightarrow> fragThreadState \<Rightarrow> attempt_result" where
  "attempt h w state =
     (let di = w_di w in
      if IsStopping di then Return state None []
      else
        let evs = [request_of di w state] in
        case Do w of
          None \<Rightarrow> retry h di state evs []
        | Some resp \<Rightarrow>
            (case ReadAll resp of
               None \<Rightarrow> retry h di state evs []
             | Some respData \<Rightarrow>
                 if StatusCode resp \<ge> 400 then
                   retry h di
                     (state\<lparr>Is403 := HandleFragHttpError h di state (StatusCode resp)\<rparr>) evs []
                 else if length respData = 0 then retry h di state evs []
                 else
                   let headerSeqnum = headerSeqnum_of (Header_Get (X_Head_Seqnum resp));
                       fname = fname_of state
                   in if ToFile state then
                        (if \<not> WriteFile_ok w then
                           retry h di state (evs @ [WriteFile fname respData]) [TryDelete fname]
                         else
                           Return state
                             (Some \<lparr>Seq = SeqNum state, FileName = fname,
                                    XHeadSeqNum = headerSeqnum, Data = None\<rparr>)
                             (evs @ [WriteFile fname respData]))
                      else
                        Return state
                          (Some \<lparr>Seq = SeqNum state, FileName = fname,
                                 XHeadSeqNum = headerSeqnum, Data = Some respData\<rparr>)
                          evs))"

subsection \<open>The retry loop of \<open>downloadFragment\<close>\<close>

text \<open>
  \<open>env k\<close> is the world at the \<open>k\<close>-th attempt for this sequence. The result is the
  thread state at return, the fragment sent on \<open>dataChan\<close> (\<open>None\<close> when the Worker
  returns without sending one) and the events in order.
\<close>

function downloadFragment_loop ::
  "hooks \<Rightarrow> (nat \<Rightarrow> world) \<Rightarrow> nat \<Rightarrow> fragThreadState \<Rightarrow> event list
     \<Rightarrow> fragThreadState \<times> Fragment option \<times> event list" where
  "downloadFragment_loop h env k state tr =
     (if Tries state < FragMaxTries then
        (case attempt h (env k) state of
           Retry state1 evs \<Rightarrow> downloadFragment_loop h env (Suc k) state1 (tr @ evs)
         | Return state1 frag evs \<Rightarrow> (state1, frag, tr @ evs))
      else (state, None, tr))"
  by pat_completeness auto
termination
  by (relation "measure (\<lambda>(h, env, k, state, tr). nat (FragMaxTries - Tries state))")
     (auto simp: attempt_def retry_def Let_def split: if_splits option.splits)

declare downloadFragment_loop.simps [simp del]

definition downloadFragment ::
  "hooks \<Rightarrow> (nat \<Rightarrow> world) \<Rightarrow> fragThreadState
     \<Rightarrow> fragThreadState \<times> Fragment option \<times> event list" where
  "downloadFragment h env state =
     downloadFragment_loop h env 0 (state\<lparr>Tries := 0, FullRetries := 3, Is403 := False\<rparr>) []"

subsection \<open>\<open>DownloadFrags\<close>: the Worker's loop over the requests it receives\<close>

text \<open>
  A request as one Worker takes it from \<open>seqChan\<close>: the request, the shared state at that
  moment, and the worlds of the fetch attempts that follow.
\<close>

record delivery =
  d_seqInfo :: seqChanInfo
  d_di :: DownloadInfo
  d_env :: "nat \<Rightarrow> world"

text \<open>
  The body of the loop for one request: either the Worker leaves the loop (\<open>Break\<close>, with
  the shared state as this body leaves it), or it runs \<open>downloadFragment\<close>.
\<close>

datatype frags_step =
    Break DownloadInfo
  | Downloaded fragThreadState "Fragment option" "event list"

definition DownloadFrags_body ::
  "hooks \<Rightarrow> string \<Rightarrow> fragThreadState \<Rightarrow> delivery \<Rightarrow> frags_step" where
  "DownloadFrags_body h dataType state d =
     (let di = d_di d; seqInfo = d_seqInfo d in
      if IsStopping di \<or> IsFinished di dataType then Break di
      else if MaxSequence seqInfo > - 1 \<and> \<not> IsLive di
              \<and> CurSequence seqInfo \<ge> MaxSequence seqInfo
           then Break (SetFinished dataType di)
      else
        (case downloadFragment h (d_env d)
                (state\<lparr>SeqNum := CurSequence seqInfo, MaxSeq := MaxSequence seqInfo\<rparr>) of
           (state1, frag, evs) \<Rightarrow> Downloaded state1 frag evs))"

text \<open>
  The loop over the requests. The result says whether the Worker left by \<open>break\<close> (with
  the shared state it left) or because the channel was closed and drained, and gives the
  fragments sent on \<open>dataChan\<close> and the events, in order.
\<close>

fun DownloadFrags_loop ::
  "hooks \<Rightarrow> string \<Rightarrow> fragThreadState \<Rightarrow> delivery list \<Rightarrow> Fragment list \<Rightarrow> event list
     \<Rightarrow> DownloadInfo option \<times> Fragment list \<times> event list" where
  "DownloadFrags_loop h dataType state [] out tr = (None, out, tr)"
| "DownloadFrags_loop h dataType state (d # ds) out tr =
     (case DownloadFrags_body h dataType state d of
        Break di \<Rightarrow> (Some di, out, tr)
      | Downloaded state1 frag evs \<Rightarrow>
          DownloadFrags_loop h dataType state1 ds
            (out @ (case frag of None \<Rightarrow> [] | Some fr \<Rightarrow> [fr])) (tr @ evs))"

text \<open>
  \<open>DownloadFrags\<close>: \<open>di0\<close> is the shared state when the Worker starts (it reads the URL
  template, the base path, \<open>FragFiles\<close> and the target duration there, once), \<open>di_end\<close> the
  shared state when the Worker finds the channel closed. The deferred \<open>DecrementJobs\<close>
  runs on the state the Worker leaves.
\<close>

definition Second :: int where
  "Second = 1000000000"

definition initial_state :: "string \<Rightarrow> string \<Rightarrow> DownloadInfo \<Rightarrow> fragThreadState" where
  "initial_state dataType name di0 =
     NewFragThreadState name (GetBaseFilePath di0 dataType) dataType
       (GetDownloadUrl di0 dataType) (FragFiles di0) (TargetDuration di0 * Second)"

definition DownloadFrags ::
  "hooks \<Rightarrow> string \<Rightarrow> string \<Rightarrow> DownloadInfo \<Rightarrow> delivery list \<Rightarrow> DownloadInfo
     \<Rightarrow> DownloadInfo \<times> Fragment list \<times> event list" where
  "DownloadFrags h dataType name di0 ds di_end =
     (case DownloadFrags_loop h dataType (initial_state dataType name di0) ds [] [] of
        (left, out, tr) \<Rightarrow>
          (DecrementJobs dataType (case left of None \<Rightarrow> di_end | Some di \<Rightarrow> di), out, tr))"

section \<open>The Coordinator: \<open>DownloadStream\<close>\<close>

subsection \<open>The output file\<close>

text \<open>
  The file \<open>os.Create\<close> returns: its bytes and the offset of the next write. A write
  puts its bytes at the offset, over what is there, and moves the offset behind them; a
  write behind the end leaves a hole of zero bytes.
\<close>

record outfile =
  content :: bytes
  pos :: nat

definition pwrite :: "bytes \<Rightarrow> nat \<Rightarrow> bytes \<Rightarrow> bytes" where
  "pwrite c p b =
     (if b = [] then c
      else take p c @ replicate (p - length c) (CHR 0x00) @ b @ drop (p + length b) c)"

text \<open>
  The outcome of one call of \<open>f.Write\<close> is given by the environment: \<open>WOk\<close>, all bytes
  are written and the error is nil; \<open>WErr k\<close>, an error after \<open>k\<close> bytes (at most all of
  them) were written. \<open>f_Write\<close> returns the count, whether the error is non-nil, and the
  file.
\<close>

datatype wres = WOk | WErr nat

definition f_Write :: "wres \<Rightarrow> bytes \<Rightarrow> outfile \<Rightarrow> nat \<times> bool \<times> outfile" where
  "f_Write r b fl =
     (case r of
        WOk \<Rightarrow>
          (length b, False,
           \<lparr>content = pwrite (content fl) (pos fl) b, pos = pos fl + length b\<rparr>)
      | WErr k \<Rightarrow>
          (let n = min k (length b)
           in (n, True,
               \<lparr>content = pwrite (content fl) (pos fl) (take n b), pos = pos fl + n\<rparr>)))"

text \<open>\<open>f.Seek(offset, 1)\<close>: relative to the current offset.\<close>

definition f_Seek :: "int \<Rightarrow> outfile \<Rightarrow> outfile" where
  "f_Seek off fl = (if int (pos fl) + off < 0 then fl else fl\<lparr>pos := nat (int (pos fl) + off)\<rparr>)"

text \<open>The outcomes of the successive writes; when the list is used up, writes succeed.\<close>

fun next_wres :: "wres list \<Rightarrow> wres \<times> wres list" where
  "next_wres [] = (WOk, [])"
| "next_wres (r # rs) = (r, rs)"

subsection \<open>Writing one fragment\<close>

text \<open>
  The loop that follows the first write: \<open>data.Data.Read(buf)\<close> takes the next
  \<open>BufferSize\<close> bytes at most (the error is \<open>io.EOF\<close> when none is left) and
  \<open>f.Write(buf[:count])\<close> writes them. The result is whether a write failed,
  \<open>bytesWritten\<close>, the file, the write outcomes left, and the unread part of the buffer.
\<close>

function write_rest ::
  "bytes \<Rightarrow> nat \<Rightarrow> wres list \<Rightarrow> outfile \<Rightarrow> bool \<times> nat \<times> outfile \<times> wres list \<times> bytes" where
  "write_rest d bytesWritten ws fl =
     (if d = [] then (False, bytesWritten, fl, ws, d)
      else
        (case f_Write (fst (next_wres ws)) (take (min (length d) BufferSize) d) fl of
           (count, err, fl1) \<Rightarrow>
             if err then
               (True, bytesWritten + count, f_Seek (int (bytesWritten + count)) fl1,
                snd (next_wres ws), drop (min (length d) BufferSize) d)
             else
               write_rest (drop (min (length d) BufferSize) d) (bytesWritten + count)
                 (snd (next_wres ws)) fl1))"
  by pat_completeness auto
termination
  by (relation "measure (\<lambda>(d, bytesWritten, ws, fl). length d)")
     (auto simp: BufferSize_def)

declare write_rest.simps [simp del]

text \<open>
  One attempt to write a fragment whose unread data is \<open>d\<close>. \<open>buf\<close> is a fresh slice of
  \<open>BufferSize\<close> zero bytes; the first \<open>Read\<close> fills its beginning and its count is not
  looked at; the whole of \<open>buf\<close> goes through \<open>RemoveSidx\<close> and is written. After a failed
  write the file is moved by \<open>f.Seek(int64(bytesWritten), 1)\<close>.
\<close>

definition write_frag ::
  "(bytes \<Rightarrow> bytes) \<Rightarrow> bytes \<Rightarrow> wres list \<Rightarrow> outfile
     \<Rightarrow> bool \<times> nat \<times> outfile \<times> wres list \<times> bytes" where
  "write_frag RemoveSidx d ws fl =
     (let n = min (length d) BufferSize;
          buf = take n d @ replicate (BufferSize - n) (CHR 0x00)
      in case f_Write (fst (next_wres ws)) (RemoveSidx buf) fl of
           (count, err, fl1) \<Rightarrow>
             if err then (True, count, f_Seek (int count) fl1, snd (next_wres ws), drop n d)
             else write_rest (drop n d) count (snd (next_wres ws)) fl1)"

subsection \<open>The Coordinator's variables\<close>

text \<open>
  The local variables of \<open>DownloadStream\<close>, the two channels it sends on (as the list of
  everything sent so far) and the part of the outside world it works on: the output file
  \<open>outf\<close> (the variable \<open>f\<close>), the outcomes \<open>writes\<close> of the calls of \<open>f.Write\<close> to come, and the spill files
  \<open>files\<close> by name (\<open>ioutil.ReadFile\<close> and \<open>os.Remove\<close> fail on a name that has no file).
\<close>

record coord =
  closed :: bool
  curFrag :: int
  curSeq :: int
  activeDownloads :: int
  maxSeqs :: int
  tries :: int
  jobNum :: int
  dataToWrite :: "Fragment list"
  deletingFrags :: "string list"
  seqChan :: "seqChanInfo list"
  progressChan :: "ProgressInfo list"
  outf :: outfile
  writes :: "wres list"
  files :: "string \<Rightarrow> bytes option"

definition new_coord :: "wres list \<Rightarrow> (string \<Rightarrow> bytes option) \<Rightarrow> coord" where
  "new_coord ws fs =
     \<lparr>closed = False, curFrag = 0, curSeq = 0, activeDownloads = 0, maxSeqs = - 1,
      tries = 10, jobNum = 1, dataToWrite = [], deletingFrags = [], seqChan = [],
      progressChan = [], outf = \<lparr>content = [], pos = 0\<rparr>, writes = ws, files = fs\<rparr>"

text \<open>The three lines of every dispatch: send the request, count the sequence, count the download.\<close>

definition send :: "coord \<Rightarrow> coord" where
  "send c =
     c\<lparr>seqChan := seqChan c @ [\<lparr>CurSequence = curSeq c, MaxSequence = maxSeqs c\<rparr>],
       curSeq := curSeq c + 1,
       activeDownloads := activeDownloads c + 1\<rparr>"

subsection \<open>Draining \<open>dataChan\<close> and dispatching\<close>

text \<open>The loop \<open>for curSeq <= maxSeqs+1 && activeDownloads < di.Jobs\<close>.\<close>

function dispatch :: "int \<Rightarrow> coord \<Rightarrow> coord" where
  "dispatch jobs c =
     (if curSeq c \<le> maxSeqs c + 1 \<and> activeDownloads c < jobs then dispatch jobs (send c)
      else c)"
  by pat_completeness auto
termination
  by (relation "measure (\<lambda>(jobs, c). nat (jobs - activeDownloads c))")
     (auto simp: send_def)

declare dispatch.simps [simp del]

text \<open>The case \<open>data := <-dataChan\<close> of the select, for one fragment.\<close>

definition receive :: "int \<Rightarrow> bool \<Rightarrow> bool \<Rightarrow> coord \<Rightarrow> Fragment \<Rightarrow> coord" where
  "receive jobs downloading stopping c data =
     (let c1 = c\<lparr>dataToWrite := dataToWrite c @ [data],
                 activeDownloads := activeDownloads c - 1\<rparr>
      in if \<not> downloading \<or> stopping then c1
         else
           let c2 = (if XHeadSeqNum data > maxSeqs c1 then c1\<lparr>maxSeqs := XHeadSeqNum data\<rparr>
                     else c1)
           in if maxSeqs c2 > 0 then dispatch jobs c2 else send c2)"

text \<open>
  The loop \<open>getData\<close>: it takes the fragments that are on the channel, in order, until
  the channel is empty. \<open>received\<close> are the fragments one run of the loop takes.
\<close>

definition getData :: "int \<Rightarrow> bool \<Rightarrow> bool \<Rightarrow> Fragment list \<Rightarrow> coord \<Rightarrow> coord" where
  "getData jobs downloading stopping received c =
     foldl (receive jobs downloading stopping) c received"

text \<open>
  The stall recovery \<open>for activeDownloads < di.GetActiveJobCount(dataType)\<close>; \<open>n\<close> is the
  job count of the track, taken as it is when the loop starts.
\<close>

function redispatch :: "int \<Rightarrow> coord \<Rightarrow> coord" where
  "redispatch n c = (if activeDownloads c < n then redispatch n (send c) else c)"
  by pat_completeness auto
termination
  by (relation "measure (\<lambda>(n, c). nat (n - activeDownloads c))")
     (auto simp: send_def)

declare redispatch.simps [simp del]

subsection \<open>The write loop\<close>

text \<open>
  Where the bytes of a fragment come from: the spill file when \<open>di.FragFiles\<close> is set
  (read again at every attempt), the fragment's buffer otherwise. Reading from a nil
  buffer is a nil dereference, which panics.
\<close>

datatype load_result = LoadErr | LoadPanic | Loaded bytes

definition load_data :: "bool \<Rightarrow> (string \<Rightarrow> bytes option) \<Rightarrow> Fragment \<Rightarrow> load_result" where
  "load_data fragFiles fs data =
     (if fragFiles then
        (case fs (FileName data) of None \<Rightarrow> LoadErr | Some readBytes \<Rightarrow> Loaded readBytes)
      else (case Data data of None \<Rightarrow> LoadPanic | Some d \<Rightarrow> Loaded d))"

text \<open>
  What follows a successful write of \<open>dataToWrite[i]\<close>: \<open>curFrag\<close> advances, the progress
  message is sent, the spill file is removed (or noted for later when the removal
  fails), the fragment leaves \<open>dataToWrite\<close> and \<open>tries\<close> is 10 again.
\<close>

definition written :: "bool \<Rightarrow> string \<Rightarrow> nat \<Rightarrow> Fragment \<Rightarrow> nat \<Rightarrow> coord \<Rightarrow> coord" where
  "written fragFiles dataType i data bytesWritten c =
     (let c1 = c\<lparr>curFrag := curFrag c + 1,
                 progressChan := progressChan c @
                   [\<lparr>P_DataType = dataType, ByteCount = int bytesWritten,
                     P_MaxSeq = maxSeqs c\<rparr>]\<rparr>;
          c2 = (if fragFiles then
                  (case files c1 (FileName data) of
                     None \<Rightarrow> c1\<lparr>deletingFrags := deletingFrags c1 @ [FileName data]\<rparr>
                   | Some _ \<Rightarrow> c1\<lparr>files := (files c1)(FileName data := None)\<rparr>)
                else c1)
      in c2\<lparr>dataToWrite := take i (dataToWrite c2) @ drop (i + 1) (dataToWrite c2),
            tries := 10\<rparr>)"

text \<open>
  The loop \<open>for i < len(dataToWrite) && tries > 0\<close>. The result is \<open>None\<close> when the loop
  panics. A buffer that was read stays read: the fragment in \<open>dataToWrite\<close> keeps what is
  left of it.
\<close>

function write_loop ::
  "(bytes \<Rightarrow> bytes) \<Rightarrow> bool \<Rightarrow> string \<Rightarrow> nat \<Rightarrow> coord \<Rightarrow> coord option" where
  "write_loop RemoveSidx fragFiles dataType i c =
     (if i < length (dataToWrite c) \<and> tries c > 0 then
        (if Seq (dataToWrite c ! i) \<noteq> curFrag c then
           write_loop RemoveSidx fragFiles dataType (i + 1) c
         else
           (case load_data fragFiles (files c) (dataToWrite c ! i) of
              LoadErr \<Rightarrow> write_loop RemoveSidx fragFiles dataType i (c\<lparr>tries := tries c - 1\<rparr>)
            | LoadPanic \<Rightarrow> None
            | Loaded d \<Rightarrow>
                (case write_frag RemoveSidx d (writes c) (outf c) of
                   (err, bytesWritten, fl, ws, rest) \<Rightarrow>
                     if err then
                       write_loop RemoveSidx fragFiles dataType i
                         (c\<lparr>outf := fl, writes := ws,
                            dataToWrite := (dataToWrite c)
                              [i := (dataToWrite c ! i)\<lparr>Data := Some rest\<rparr>],
                            tries := tries c - 1\<rparr>)
                     else
                       write_loop RemoveSidx fragFiles dataType 0
                         (written fragFiles dataType i
                            ((dataToWrite c ! i)\<lparr>Data := Some rest\<rparr>) bytesWritten
                            (c\<lparr>outf := fl, writes := ws\<rparr>)))))
      else Some c)"
  by pat_completeness auto
termination
  by (relation "measures [\<lambda>(R, ff, dt, i, c). length (dataToWrite c),
                          \<lambda>(R, ff, dt, i, c). nat (tries c) + (length (dataToWrite c) - i)]")
     (auto simp: written_def Let_def split: option.splits)

declare write_loop.simps [simp del]

subsection \<open>One iteration of the main loop\<close>

text \<open>
  \<open>RemoveSidx\<close> and what \<open>GetVideoInfo\<close> does to the shared state depend on code outside
  Info.go (the sidx parser, the player response); they are parameters.
\<close>

record params =
  RemoveSidx :: "bytes \<Rightarrow> bytes"
  GetVideoInfo :: "DownloadInfo \<Rightarrow> DownloadInfo"

text \<open>
  One iteration, on the shared state \<open>di\<close> as it is when the iteration starts. \<open>received\<close>
  are the fragments the drain takes from \<open>dataChan\<close>, \<open>hour\<close> says whether the last
  metadata refresh is more than an hour old. The result is \<open>None\<close> for a panic, and
  otherwise whether the loop is left by \<open>break\<close>, the shared state and the variables.
\<close>

definition main_iter ::
  "params \<Rightarrow> string \<Rightarrow> Fragment list \<Rightarrow> bool \<Rightarrow> DownloadInfo \<Rightarrow> coord
     \<Rightarrow> (bool \<times> DownloadInfo \<times> coord) option" where
  "main_iter P dataType received hour di c =
     (let dataReceived = (received \<noteq> []);
          downloading = (\<not> IsFinished di dataType \<or> GetActiveJobCount di dataType > 0);
          stopping = IsStopping di;
          c1 = (if (stopping \<or> \<not> downloading) \<and> \<not> closed c then c\<lparr>closed := True\<rparr> else c);
          c2 = getData (Jobs di) downloading stopping received c1
      in if \<not> downloading then Some (True, di, c2)
         else if length (dataToWrite c2) = 0 \<or> \<not> dataReceived then
           Some (False, di,
                 if \<not> stopping \<and> activeDownloads c2 \<le> 0
                 then redispatch (GetActiveJobCount di dataType) c2 else c2)
         else
           (case write_loop (RemoveSidx P) (FragFiles di) dataType 0 c2 of
              None \<Rightarrow> None
            | Some c3 \<Rightarrow>
                let di1 = (if \<not> stopping \<and> \<not> IsUnavailable di \<and> hour
                           then GetVideoInfo P di else di);
                    di2 = (if tries c3 \<le> 0 then Stop di1 else di1)
                in Some (False, di2, c3)))"

subsection \<open>Bootstrap, main loop and termination\<close>

text \<open>
  The loop \<open>for di.GetActiveJobCount(dataType) < di.Jobs\<close> that starts the Workers, run
  without a Worker leaving in between. \<open>spawned\<close> are the names of the Workers started.
\<close>

function bootstrap ::
  "string \<Rightarrow> DownloadInfo \<Rightarrow> coord \<Rightarrow> string list \<Rightarrow> DownloadInfo \<times> coord \<times> string list" where
  "bootstrap dataType di c spawned =
     (if GetActiveJobCount di dataType < Jobs di then
        bootstrap dataType (IncrementJobs dataType di)
          ((send c)\<lparr>jobNum := jobNum c + 1\<rparr>)
          (spawned @ [dataType @ Itoa (jobNum c)])
      else (di, c, spawned))"
  by pat_completeness auto
termination
  by (relation "measure (\<lambda>(dataType, di, c, spawned).
                  nat (Jobs di - GetActiveJobCount di dataType))")
     (auto simp: GetActiveJobCount_def IncrementJobs_def)

declare bootstrap.simps [simp del]

text \<open>
  The environment of one iteration: what the other threads did to the shared state since
  the iteration before, the fragments on \<open>dataChan\<close>, and the clock.
\<close>

record iter_env =
  others :: "DownloadInfo \<Rightarrow> DownloadInfo"
  received :: "Fragment list"
  hour_passed :: bool

datatype run_status = Running | Exited | Panicked

text \<open>
  The loop \<open>for { ... }\<close>, one environment per iteration. \<open>Running\<close> is the state of a
  Coordinator that is still in its loop when the environments given are used up.
\<close>

fun main_loop ::
  "params \<Rightarrow> string \<Rightarrow> iter_env list \<Rightarrow> DownloadInfo \<Rightarrow> coord
     \<Rightarrow> run_status \<times> DownloadInfo \<times> coord" where
  "main_loop P dataType [] di c = (Running, di, c)"
| "main_loop P dataType (e # es) di c =
     (case main_iter P dataType (received e) (hour_passed e) (others e di) c of
        None \<Rightarrow> (Panicked, others e di, c)
      | Some (brk, di1, c1) \<Rightarrow>
          if brk then (Exited, di1, c1) else main_loop P dataType es di1 c1)"

text \<open>
  After the loop: the spill files of the fragments still in \<open>dataToWrite\<close> and the files
  in \<open>deletingFrags\<close> are deleted (\<open>TryDelete\<close> is not in Info.go; after the specification
  it deletes the file).
\<close>

definition TryDelete_all :: "string list \<Rightarrow> (string \<Rightarrow> bytes option) \<Rightarrow> (string \<Rightarrow> bytes option)" where
  "TryDelete_all names fs = (\<lambda>n. if n \<in> set names then None else fs n)"

definition cleanup :: "bool \<Rightarrow> coord \<Rightarrow> coord" where
  "cleanup fragFiles c =
     c\<lparr>files := TryDelete_all (deletingFrags c)
                  (if fragFiles then TryDelete_all (map FileName (dataToWrite c)) (files c)
                   else files c)\<rparr>"

text \<open>
  \<open>DownloadStream\<close>. \<open>create_ok\<close> says whether \<open>os.Create\<close> returned a file. \<open>done\<close> counts
  the values sent on the done channel, \<open>workers\<close> lists the Workers started.
\<close>

record stream_result =
  status :: run_status
  r_di :: DownloadInfo
  r_coord :: coord
  workers :: "string list"
  done_sent :: nat

definition DownloadStream ::
  "params \<Rightarrow> string \<Rightarrow> bool \<Rightarrow> wres list \<Rightarrow> (string \<Rightarrow> bytes option) \<Rightarrow> iter_env list
     \<Rightarrow> DownloadInfo \<Rightarrow> stream_result" where
  "DownloadStream P dataType create_ok ws fs es di =
     (if \<not> create_ok then
        \<lparr>status = Exited, r_di = Stop di, r_coord = new_coord ws fs, workers = [],
         done_sent = 1\<rparr>
      else
        (case bootstrap dataType di (new_coord ws fs) [] of
           (di1, c1, spawned) \<Rightarrow>
             (case main_loop P dataType es di1 c1 of
                (st, di2, c2) \<Rightarrow>
                  \<lparr>status = st, r_di = di2,
                   r_coord = (if st = Exited then cleanup (FragFiles di2) c2 else c2),
                   workers = spawned,
                   done_sent = (if st = Running then 0 else 1)\<rparr>)))"

section \<open>Notions and sample inputs for the properties\<close>

text \<open>A fetch that fails: transport error, body-read error, status 400 or above, or an empty body.\<close>

definition failed_fetch :: "world \<Rightarrow> bool" where
  "failed_fetch w =
     (case Do w of
        None \<Rightarrow> True
      | Some resp \<Rightarrow>
          (case ReadAll resp of
             None \<Rightarrow> True
           | Some respData \<Rightarrow> StatusCode resp \<ge> 400 \<or> respData = []))"

fun is_Get :: "event \<Rightarrow> bool" where
  "is_Get (Get u n h) = True"
| "is_Get e = False"

text \<open>
  \<open>sleeps_between d slept tr\<close>: in the trace \<open>tr\<close> every sleep lasts \<open>d\<close>, and every request
  but the first comes after a sleep that follows the request before it.
\<close>

fun sleeps_between :: "int \<Rightarrow> bool \<Rightarrow> event list \<Rightarrow> bool" where
  "sleeps_between d slept [] = True"
| "sleeps_between d slept (Get u n h # es) = (slept \<and> sleeps_between d False es)"
| "sleeps_between d slept (Sleep t # es) = (t = d \<and> sleeps_between d True es)"
| "sleeps_between d slept (WriteFile n b # es) = sleeps_between d slept es"
| "sleeps_between d slept (TryDelete n # es) = sleeps_between d slept es"

text \<open>Hooks that take note of a 403 and give up when the tries are used up.\<close>

definition hooks0 :: hooks where
  "hooks0 =
     \<lparr>HandleFragHttpError = (\<lambda>di state code. code = 403),
      ContinueFragmentDownload = (\<lambda>di state. Tries state < FragMaxTries)\<rparr>"

text \<open>A video track with one job and fragments kept in memory.\<close>

definition url_a :: string where
  "url_a = ''https://a.example/videoplayback?itag=136&sq=%d''"

definition di_a :: DownloadInfo where
  "di_a =
     SetDownloadUrl url_Parse_model DtypeVideo url_a (NewDownloadInfo\<lparr>FragFiles := False\<rparr>)"

text \<open>The world in which the server answers 200 with the given body and head sequence.\<close>

definition world_ok :: "DownloadInfo \<Rightarrow> bytes \<Rightarrow> string option \<Rightarrow> world" where
  "world_ok di body hdr =
     \<lparr>w_di = di, NewRequest_ok = True,
      Do = Some \<lparr>StatusCode = 200, ReadAll = Some body, X_Head_Seqnum = hdr\<rparr>,
      WriteFile_ok = True\<rparr>"

text \<open>The world in which the server answers with an error status and no head sequence.\<close>

definition world_status :: "DownloadInfo \<Rightarrow> int \<Rightarrow> world" where
  "world_status di code =
     \<lparr>w_di = di, NewRequest_ok = True,
      Do = Some \<lparr>StatusCode = code, ReadAll = Some ''Forbidden'', X_Head_Seqnum = None\<rparr>,
      WriteFile_ok = True\<rparr>"

definition state_a :: fragThreadState where
  "state_a = initial_state DtypeVideo ''video1'' di_a"

definition params0 :: params where
  "params0 = \<lparr>RemoveSidx = (\<lambda>b. b), GetVideoInfo = (\<lambda>di. di)\<rparr>"

fun events_of :: "attempt_result \<Rightarrow> event list" where
  "events_of (Retry state evs) = evs"
| "events_of (Return state frag evs) = evs"

text \<open>An event that is not a request, or a request formatted from the template \<open>U\<close>.\<close>

fun from_template :: "string \<Rightarrow> event \<Rightarrow> bool" where
  "from_template U (Get u n hh) = (u = U)"
| "from_template U e = True"

text \<open>The same track after a refresh has moved the template to another host.\<close>

definition url_b :: string where
  "url_b = ''https://b.example/videoplayback?itag=136&sq=%d''"

definition di_b :: DownloadInfo where
  "di_b = SetDownloadUrl url_Parse_model DtypeVideo url_b di_a"

text \<open>A first fetch that is answered 403 before the refresh, and fetches that succeed after it.\<close>

definition env_refresh :: "nat \<Rightarrow> world" where
  "env_refresh k = (if k = 0 then world_status di_a 403 else world_ok di_b ''e'' (Some ''4''))"

text \<open>
  \<open>dispatched_after c c1\<close>: from \<open>c\<close> to \<open>c1\<close> the Coordinator has sent requests for the
  sequence numbers \<open>curSeq c\<close>, \<open>curSeq c + 1\<close>, ... up to \<open>curSeq c1 - 1\<close>, in this order,
  and nothing else. \<open>in_order c\<close>: the requests sent so far are those for 0, 1, ...,
  \<open>curSeq c - 1\<close>, in this order.
\<close>

definition dispatched_after :: "coord \<Rightarrow> coord \<Rightarrow> bool" where
  "dispatched_after c c1 =
     (curSeq c \<le> curSeq c1 \<and>
      (\<exists>new. seqChan c1 = seqChan c @ new \<and>
             map CurSequence new = [curSeq c .. curSeq c1 - 1]))"

definition in_order :: "coord \<Rightarrow> bool" where
  "in_order c = (0 \<le> curSeq c \<and> map CurSequence (seqChan c) = [0 .. curSeq c - 1])"

text \<open>
  What the other threads may do to the shared state between two iterations of a
  Coordinator: they leave \<open>Jobs\<close> alone and do not raise the job count of its track
  (only the Coordinator starts Workers of its track).
\<close>

definition keeps_jobs :: "string \<Rightarrow> (DownloadInfo \<Rightarrow> DownloadInfo) \<Rightarrow> bool" where
  "keeps_jobs dataType g =
     (\<forall>di. Jobs (g di) = Jobs di \<and> GetActiveJobCount (g di) dataType \<le> GetActiveJobCount di dataType)"

text \<open>
  A stream that has ended (\<open>Live\<close> is false) and whose server has the sequences 0 and 1
  and sends \<open>X-Head-Seqnum: 1\<close> with every response, recorded by one Worker. \<open>di_1\<close> is the
  shared state after the bootstrap, \<open>frag_a\<close> what the Worker publishes for sequence 0.
\<close>

definition di_1 :: DownloadInfo where
  "di_1 = IncrementJobs DtypeVideo di_a"

definition frag_a :: Fragment where
  "frag_a = \<lparr>Seq = 0, FileName = ''.frag0.ts'', XHeadSeqNum = 1, Data = Some ''a''\<rparr>"

text \<open>
  What the Worker gets: the request for sequence 0, sent by the bootstrap, and the
  request for sequence 1, sent when the fragment of sequence 0 was drained.
\<close>

definition deliveries_K1 :: "delivery list" where
  "deliveries_K1 =
     [\<lparr>d_seqInfo = \<lparr>CurSequence = 0, MaxSequence = - 1\<rparr>, d_di = di_1,
       d_env = (\<lambda>k. world_ok di_1 ''a'' (Some ''1''))\<rparr>,
      \<lparr>d_seqInfo = \<lparr>CurSequence = 1, MaxSequence = 1\<rparr>, d_di = di_1,
       d_env = (\<lambda>k. world_ok di_1 ''b'' (Some ''1''))\<rparr>]"

text \<open>
  What the Coordinator meets in its first two iterations: the fragment of sequence 0 on
  the channel; then nothing on the channel, the Worker having marked the track finished
  and left.
\<close>

definition es_K1 :: "iter_env list" where
  "es_K1 =
     [\<lparr>others = (\<lambda>di. di), received = [frag_a], hour_passed = False\<rparr>,
      \<lparr>others = (\<lambda>di. DecrementJobs DtypeVideo (SetFinished DtypeVideo di)),
       received = [], hour_passed = False\<rparr>]"

text \<open>
  The Coordinator's variables in this run: after the bootstrap, after the drain of the
  first iteration and after its write; \<open>di_2\<close> is the shared state the Worker leaves.
\<close>

definition c_boot :: coord where
  "c_boot = \<lparr>closed = False, curFrag = 0, curSeq = 1, activeDownloads = 1, maxSeqs = - 1,
      tries = 10, jobNum = 2, dataToWrite = [], deletingFrags = [],
      seqChan = [\<lparr>CurSequence = 0, MaxSequence = - 1\<rparr>],
      progressChan = [], outf = \<lparr>content = [], pos = 0\<rparr>,
      writes = [], files = (\<lambda>n. None)\<rparr>"

definition c_drained :: coord where
  "c_drained = \<lparr>closed = False, curFrag = 0, curSeq = 2, activeDownloads = 1, maxSeqs = 1,
      tries = 10, jobNum = 2, dataToWrite = [frag_a], deletingFrags = [],
      seqChan = [\<lparr>CurSequence = 0, MaxSequence = - 1\<rparr>, \<lparr>CurSequence = 1, MaxSequence = 1\<rparr>],
      progressChan = [], outf = \<lparr>content = [], pos = 0\<rparr>,
      writes = [], files = (\<lambda>n. None)\<rparr>"

definition c_1 :: coord where
  "c_1 = \<lparr>closed = False, curFrag = 1, curSeq = 2, activeDownloads = 1, maxSeqs = 1,
      tries = 10, jobNum = 2, dataToWrite = [], deletingFrags = [],
      seqChan = [\<lparr>CurSequence = 0, MaxSequence = - 1\<rparr>, \<lparr>CurSequence = 1, MaxSequence = 1\<rparr>],
      progressChan = [\<lparr>P_DataType = DtypeVideo, ByteCount = 8192, P_MaxSeq = 1\<rparr>],
      outf = \<lparr>content = CHR ''a'' # replicate 8191 (CHR 0x00), pos = 8192\<rparr>,
      writes = [], files = (\<lambda>n. None)\<rparr>"

definition di_2 :: DownloadInfo where
  "di_2 = DecrementJobs DtypeVideo (SetFinished DtypeVideo di_1)"

text \<open>
  The requests sent that no fragment has answered: those sent, less the fragments
  received, which are the ones written (\<open>curFrag\<close>) and the ones pending.
\<close>

definition outstanding :: "coord \<Rightarrow> int" where
  "outstanding c = int (length (seqChan c)) - int (length (dataToWrite c)) - curFrag c"

text \<open>A fragment that is not the one the write loop waits for.\<close>

definition not_next :: "coord \<Rightarrow> Fragment \<Rightarrow> bool" where
  "not_next c data = (Seq data \<noteq> curFrag c)"

text \<open>An iteration in which the other threads did nothing and no fragment has arrived.\<close>

definition idle :: iter_env where
  "idle = \<lparr>others = (\<lambda>di. di), received = [], hour_passed = False\<rparr>"

text \<open>The request for sequence 0, taken while the server answers every fetch with 403.\<close>

definition delivery_403 :: delivery where
  "delivery_403 =
     \<lparr>d_seqInfo = \<lparr>CurSequence = 0, MaxSequence = - 1\<rparr>, d_di = di_1,
      d_env = (\<lambda>k. world_status di_1 403)\<rparr>"

text \<open>
  A stream that has ended, whose server has the sequences 0 to 4 with the one-byte
  bodies \<open>a\<close> to \<open>e\<close> and sends \<open>X-Head-Seqnum: 4\<close>, recorded with five jobs: what the five
  Workers publish, and the first iteration of the Coordinator, which finds the five
  fragments on the channel.
\<close>

definition di_5 :: DownloadInfo where
  "di_5 = di_a\<lparr>Jobs := 5\<rparr>"

definition frags_abcde :: "Fragment list" where
  "frags_abcde =
     [\<lparr>Seq = 0, FileName = ''.frag0.ts'', XHeadSeqNum = 4, Data = Some ''a''\<rparr>,
      \<lparr>Seq = 1, FileName = ''.frag1.ts'', XHeadSeqNum = 4, Data = Some ''b''\<rparr>,
      \<lparr>Seq = 2, FileName = ''.frag2.ts'', XHeadSeqNum = 4, Data = Some ''c''\<rparr>,
      \<lparr>Seq = 3, FileName = ''.frag3.ts'', XHeadSeqNum = 4, Data = Some ''d''\<rparr>,
      \<lparr>Seq = 4, FileName = ''.frag4.ts'', XHeadSeqNum = 4, Data = Some ''e''\<rparr>]"

definition es_abcde :: "iter_env list" where
  "es_abcde = [\<lparr>others = (\<lambda>di. di), received = frags_abcde, hour_passed = False\<rparr>]"

text \<open>\<open>zeros n\<close>: \<open>n\<close> zero bytes.\<close>

definition zeros :: "nat \<Rightarrow> bytes" where
  "zeros n = replicate n (CHR 0x00)"

text \<open>The shared state and the Coordinator's variables after the bootstrap with five jobs.\<close>

definition di_5b :: DownloadInfo where
  "di_5b = (IncrementJobs DtypeVideo ^^ 5) di_5"

definition c_5b :: coord where
  "c_5b = \<lparr>closed = False, curFrag = 0, curSeq = 5, activeDownloads = 5, maxSeqs = - 1,
      tries = 10, jobNum = 6, dataToWrite = [], deletingFrags = [],
      seqChan = [\<lparr>CurSequence = 0, MaxSequence = - 1\<rparr>, \<lparr>CurSequence = 1, MaxSequence = - 1\<rparr>,
                 \<lparr>CurSequence = 2, MaxSequence = - 1\<rparr>, \<lparr>CurSequence = 3, MaxSequence = - 1\<rparr>,
                 \<lparr>CurSequence = 4, MaxSequence = - 1\<rparr>],
      progressChan = [], outf = \<lparr>content = [], pos = 0\<rparr>,
      writes = [], files = (\<lambda>n. None)\<rparr>"

text \<open>The variables after the drain of the five fragments.\<close>

definition c_5d :: coord where
  "c_5d = c_5b\<lparr>curSeq := 6, activeDownloads := 1, maxSeqs := 4, dataToWrite := frags_abcde,
      seqChan := seqChan c_5b @ [\<lparr>CurSequence = 5, MaxSequence = 4\<rparr>]\<rparr>"

text \<open>
  \<open>as_written R d\<close>: the bytes the write loop puts into the file for a fragment with the
  data \<open>d\<close> when no write fails: the buffer of \<open>BufferSize\<close> bytes after the first read,
  through \<open>R\<close>, then the rest of the data.
\<close>

definition as_written :: "(bytes \<Rightarrow> bytes) \<Rightarrow> bytes \<Rightarrow> bytes" where
  "as_written R d =
     R (take BufferSize d @ zeros (BufferSize - length d)) @ drop BufferSize d"

text \<open>
  A Coordinator that has to write one fragment, whose spill file holds \<open>hello\<close>, to an
  empty output file, with \<open>FragFiles\<close> set: \<open>c_hello ws\<close> has the outcomes \<open>ws\<close> for its
  writes.
\<close>

definition frag_hello :: Fragment where
  "frag_hello = \<lparr>Seq = 0, FileName = ''out.frag0.ts'', XHeadSeqNum = - 1, Data = None\<rparr>"

definition fs_hello :: "string \<Rightarrow> bytes option" where
  "fs_hello n = (if n = ''out.frag0.ts'' then Some ''hello'' else None)"

definition c_hello :: "wres list \<Rightarrow> coord" where
  "c_hello ws = (new_coord ws fs_hello)\<lparr>dataToWrite := [frag_hello]\<rparr>"

text \<open>The Coordinator's variables after that fragment is written, the file holding \<open>cs\<close> with its offset at \<open>p\<close>.\<close>

definition hello_done :: "bytes \<Rightarrow> nat \<Rightarrow> coord" where
  "hello_done cs p =
     (new_coord [] (\<lambda>n. None))\<lparr>curFrag := 1,
        progressChan := [\<lparr>P_DataType = DtypeVideo, ByteCount = 8192, P_MaxSeq = - 1\<rparr>],
        outf := \<lparr>content = cs, pos = p\<rparr>\<rparr>"

section \<open>Properties\<close>

subsection \<open>Decimal integers\<close>

text \<open>\<open>Atoi\<close> reads back what \<open>Itoa\<close> prints, for every value of the 64-bit range.\<close>

lemma digits_val_snoc: "digits_val (xs @ [c]) = digits_val xs * 10 + digit_val c"
  by (simp add: digits_val_def)

lemma of_char_digit_char: "n < 10 \<Longrightarrow> (of_char (digit_char n) :: nat) = 48 + n"
proof -
  assume "n < 10"
  then have "n \<in> {0, 1, 2, 3, 4, 5, 6, 7, 8, 9}" by auto
  then show ?thesis by (auto simp: digit_char_def)
qed

lemma digit_char_props: "n < 10 \<Longrightarrow> is_digit (digit_char n) \<and> digit_val (digit_char n) = int n
   \<and> digit_char n \<noteq> CHR ''-'' \<and> digit_char n \<noteq> CHR ''+''"
  using of_char_digit_char[of n]
  by (auto simp: is_digit_def digit_val_def)

lemma nat_digits_props:
  "nat_digits n \<noteq> [] \<and> list_all is_digit (nat_digits n) \<and> digits_val (nat_digits n) = int n"
proof (induction n rule: nat_digits.induct)
  case (1 n)
  show ?case
  proof (cases "n < 10")
    case True
    then show ?thesis using digit_char_props[of n]
      by (simp add: nat_digits.simps[of n] digits_val_def)
  next
    case False
    have m: "n mod 10 < 10" by simp
    from False 1 digit_char_props[OF m] show ?thesis
      by (simp add: nat_digits.simps[of n] digits_val_snoc) presburger
  qed
qed

lemma Atoi_body_digits:
  "Atoi_body neg (nat_digits n) =
     (if \<not> neg \<and> int n \<ge> 2 ^ 63 then (2 ^ 63 - 1, False)
      else if neg \<and> int n > 2 ^ 63 then (- (2 ^ 63), False)
      else (if neg then - int n else int n, True))"
  using nat_digits_props[of n] by (simp add: Atoi_body_def Let_def)

lemma hd_nat_digits: "\<exists>c s. nat_digits n = c # s \<and> c \<noteq> CHR ''-'' \<and> c \<noteq> CHR ''+''"
proof (induction n rule: nat_digits.induct)
  case (1 n)
  show ?case
  proof (cases "n < 10")
    case True
    then show ?thesis using digit_char_props[of n] by (simp add: nat_digits.simps[of n])
  next
    case False
    with 1 show ?thesis by (auto simp add: nat_digits.simps[of n])
  qed
qed

lemma Atoi_Itoa: "- (2 ^ 63) \<le> n \<Longrightarrow> n < 2 ^ 63 \<Longrightarrow> Atoi (Itoa n) = (n, True)"
proof (cases "n < 0")
  case True
  assume "- (2 ^ 63) \<le> n"
  with True show ?thesis by (simp add: Itoa_def Atoi_body_digits)
next
  case False
  assume b: "n < 2 ^ 63"
  obtain c s where cs: "nat_digits (nat n) = c # s" "c \<noteq> CHR ''-''" "c \<noteq> CHR ''+''"
    using hd_nat_digits by blast
  have "Atoi (Itoa n) = Atoi_body False (nat_digits (nat n))"
    using False cs by (simp add: Itoa_def)
  with False b show ?thesis by (simp add: Atoi_body_digits)
qed

subsection \<open>The head sequence of a published fragment\<close>

lemma retry_no_frag: "retry h di st evs cl \<noteq> Return st1 (Some fr) evs1"
  by (simp add: retry_def Let_def)

lemma attempt_published:
  assumes "attempt h w state = Return state1 (Some frag) evs"
  shows "\<exists>resp respData. Do w = Some resp \<and> ReadAll resp = Some respData \<and>
           StatusCode resp < 400 \<and> respData \<noteq> [] \<and> \<not> IsStopping (w_di w) \<and>
           (ToFile state \<longrightarrow> WriteFile_ok w) \<and> state1 = state \<and>
           frag = \<lparr>Seq = SeqNum state, FileName = fname_of state,
                   XHeadSeqNum = headerSeqnum_of (Header_Get (X_Head_Seqnum resp)),
                   Data = (if ToFile state then None else Some respData)\<rparr>"
  using assms
  by (auto simp: attempt_def Let_def retry_no_frag split: if_splits option.splits)

lemma Atoi_body_err:
  "\<not> snd (Atoi_body neg s) \<Longrightarrow> fst (Atoi_body neg s) \<in> {0, 2 ^ 63 - 1, - (2 ^ 63)}"
  by (auto simp: Atoi_body_def Let_def split: if_splits)

lemma Atoi_err: "\<not> snd (Atoi v) \<Longrightarrow> fst (Atoi v) \<in> {0, 2 ^ 63 - 1, - (2 ^ 63)}"
proof (cases v)
  case Nil
  then show ?thesis by simp
next
  case (Cons c s)
  assume e: "\<not> snd (Atoi v)"
  show ?thesis
  proof (cases "c = CHR ''-''")
    case True
    with Cons e Atoi_body_err[of True s] show ?thesis by simp
  next
    case False
    note nm = this
    show ?thesis
    proof (cases "c = CHR ''+''")
      case True
      with Cons e Atoi_body_err[of False s] show ?thesis by simp
    next
      case False
      with nm Cons e Atoi_body_err[of False "c # s"] show ?thesis by simp
    qed
  qed
qed

lemma Itoa_not_Nil: "Itoa n \<noteq> []"
  using hd_nat_digits[of "nat n"] hd_nat_digits[of "nat (- n)"] by (auto simp: Itoa_def)

lemma Itoa_digit: "0 \<le> n \<Longrightarrow> n < 10 \<Longrightarrow> Itoa n = [digit_char (nat n)]"
proof -
  assume "0 \<le> n" "n < 10"
  then have "nat n < 10" by simp
  then have "nat_digits (nat n) = [digit_char (nat n)]"
    by (subst nat_digits.simps) simp
  with \<open>0 \<le> n\<close> show ?thesis by (simp add: Itoa_def)
qed

text \<open>
  C8 (as amended). The fragment a successful fetch publishes has \<open>head_seq\<close> = -1 when the
  response has no \<open>X-Head-Seqnum\<close> header or an empty one; for a non-empty header it is
  the value \<open>strconv.Atoi\<close> returns, error or not: the integer when the header is a
  decimal integer of the 64-bit range, and otherwise 0 (syntax error) or the nearest
  64-bit bound (out of range), never -1 on that account.
\<close>

theorem C8_head_seq_of_published_fragment:
  assumes "attempt h w state = Return state1 (Some frag) evs"
  shows "\<exists>resp. Do w = Some resp \<and>
     (X_Head_Seqnum resp = None \<or> X_Head_Seqnum resp = Some [] \<longrightarrow> XHeadSeqNum frag = - 1) \<and>
     (\<forall>v. X_Head_Seqnum resp = Some v \<and> v \<noteq> [] \<longrightarrow> XHeadSeqNum frag = fst (Atoi v)) \<and>
     (\<forall>n. - (2 ^ 63) \<le> n \<and> n < 2 ^ 63 \<and> X_Head_Seqnum resp = Some (Itoa n)
          \<longrightarrow> XHeadSeqNum frag = n) \<and>
     (\<forall>v. X_Head_Seqnum resp = Some v \<and> v \<noteq> [] \<and> \<not> snd (Atoi v)
          \<longrightarrow> XHeadSeqNum frag \<in> {0, 2 ^ 63 - 1, - (2 ^ 63)})"
proof -
  from attempt_published[OF assms] obtain resp where
    r: "Do w = Some resp"
    and x: "XHeadSeqNum frag = headerSeqnum_of (Header_Get (X_Head_Seqnum resp))"
    by auto
  have a: "X_Head_Seqnum resp = None \<or> X_Head_Seqnum resp = Some [] \<longrightarrow> XHeadSeqNum frag = - 1"
    using x by (auto simp: headerSeqnum_of_def Header_Get_def)
  have b: "\<forall>v. X_Head_Seqnum resp = Some v \<and> v \<noteq> [] \<longrightarrow> XHeadSeqNum frag = fst (Atoi v)"
    using x by (auto simp: headerSeqnum_of_def Header_Get_def)
  have c: "\<forall>n. - (2 ^ 63) \<le> n \<and> n < 2 ^ 63 \<and> X_Head_Seqnum resp = Some (Itoa n)
          \<longrightarrow> XHeadSeqNum frag = n"
    using b Itoa_not_Nil Atoi_Itoa by auto
  have d: "\<forall>v. X_Head_Seqnum resp = Some v \<and> v \<noteq> [] \<and> \<not> snd (Atoi v)
          \<longrightarrow> XHeadSeqNum frag \<in> {0, 2 ^ 63 - 1, - (2 ^ 63)}"
    using b Atoi_err by metis
  from r a b c d show ?thesis by blast
qed

lemmas eval_worker =
  attempt_def retry_def request_of_def world_ok_def world_status_def state_a_def initial_state_def
  NewFragThreadState_def di_a_def SetDownloadUrl_def NewDownloadInfo_def emptyMediaDLInfo_def
  DtypeVideo_def DtypeAudio_def url_a_def url_Parse_model_def stringContainsCTLByte_def
  IsStopping_def IsFinished_def IsLive_def GetDownloadUrlHost_def GetDownloadUrl_def
  GetBaseFilePath_def Header_Get_def headerSeqnum_of_def fname_of_def Second_def hooks0_def
  FragMaxTries_def Atoi_body_def is_digit_def digits_val_def digit_val_def Itoa_digit
  digit_char_def Let_def

lemma attempt_head_4:
  "attempt hooks0 (world_ok di_a ''e'' (Some ''4'')) state_a =
     Return state_a
       (Some \<lparr>Seq = 0, FileName = ''.frag0.ts'', XHeadSeqNum = 4, Data = Some ''e''\<rparr>)
       [Get url_a 0 (Some ''a.example'')]"
  by (simp add: eval_worker)

theorem C8_head_seq_witness:
  "attempt hooks0 (world_ok di_a ''e'' (Some ''4'')) state_a =
     Return state_a
       (Some \<lparr>Seq = 0, FileName = ''.frag0.ts'', XHeadSeqNum = 4, Data = Some ''e''\<rparr>)
       [Get url_a 0 (Some ''a.example'')]
   \<and> (\<exists>resp. Do (world_ok di_a ''e'' (Some ''4'')) = Some resp \<and>
         X_Head_Seqnum resp = Some (Itoa 4) \<and> fst (Atoi (Itoa 4)) = 4)"
proof -
  have b: "\<exists>resp. Do (world_ok di_a ''e'' (Some ''4'')) = Some resp \<and>
         X_Head_Seqnum resp = Some (Itoa 4) \<and> fst (Atoi (Itoa 4)) = 4"
    by (simp add: world_ok_def Itoa_digit digit_char_def Atoi_body_def is_digit_def
         digits_val_def digit_val_def)
  from C8_head_seq_of_published_fragment[OF attempt_head_4] attempt_head_4 b
  show ?thesis by blast
qed

text \<open>
  C8 as the specification states it does not hold: a response whose header is \<open>abc\<close>, which is present and not
  parseable, gives a fragment with \<open>head_seq\<close> = 0.
\<close>

theorem C8_unparseable_header_counterexample:
  "\<not> snd (Atoi ''abc'') \<and>
   attempt hooks0 (world_ok di_a ''e'' (Some ''abc'')) state_a =
     Return state_a
       (Some \<lparr>Seq = 0, FileName = ''.frag0.ts'', XHeadSeqNum = 0, Data = Some ''e''\<rparr>)
       [Get url_a 0 (Some ''a.example'')]"
  by (simp add: eval_worker)

subsection \<open>\<open>SetDownloadUrl\<close>\<close>

text \<open>
  C9 (as amended). \<open>SetDownloadUrl\<close> always stores the new template. In the same step it
  sets \<open>url_host\<close> to the host of the new template when \<open>url.Parse\<close> accepts the
  template, and leaves \<open>url_host\<close> as it was when \<open>url.Parse\<close> returns an error. The
  other fields of the track, and the other track, are not touched.
\<close>

theorem C9_SetDownloadUrl_template_and_host:
  "DownloadURL (MDLInfo (SetDownloadUrl url_Parse dataType dlURL di) dataType) = dlURL \<and>
   URLHost (MDLInfo (SetDownloadUrl url_Parse dataType dlURL di) dataType) =
     (case url_Parse dlURL of
        Some host \<Rightarrow> host
      | None \<Rightarrow> URLHost (MDLInfo di dataType)) \<and>
   ActiveJobs (MDLInfo (SetDownloadUrl url_Parse dataType dlURL di) dataType) =
     ActiveJobs (MDLInfo di dataType) \<and>
   Finished (MDLInfo (SetDownloadUrl url_Parse dataType dlURL di) dataType) =
     Finished (MDLInfo di dataType) \<and>
   BasePath (MDLInfo (SetDownloadUrl url_Parse dataType dlURL di) dataType) =
     BasePath (MDLInfo di dataType) \<and>
   (\<forall>t. t \<noteq> dataType \<longrightarrow>
      MDLInfo (SetDownloadUrl url_Parse dataType dlURL di) t = MDLInfo di t)"
  by (simp add: SetDownloadUrl_def Let_def split: option.splits)

theorem C9_SetDownloadUrl_witness:
  "DtypeAudio \<noteq> DtypeVideo \<and>
   MDLInfo (SetDownloadUrl url_Parse_model DtypeVideo url_a NewDownloadInfo) DtypeAudio =
     MDLInfo NewDownloadInfo DtypeAudio \<and>
   URLHost (MDLInfo (SetDownloadUrl url_Parse_model DtypeVideo url_a NewDownloadInfo) DtypeVideo) =
     ''a.example''"
proof -
  have d: "DtypeAudio \<noteq> DtypeVideo" by (simp add: DtypeAudio_def DtypeVideo_def)
  have p: "url_Parse_model url_a = Some ''a.example''"
    by (simp add: url_Parse_model_def url_a_def stringContainsCTLByte_def Let_def)
  from C9_SetDownloadUrl_template_and_host[of url_Parse_model DtypeVideo url_a NewDownloadInfo] d p
  show ?thesis by simp
qed

text \<open>
  C9 as the specification states it does not hold. The template \<open>https://b.example/videoplayback/id/1/sq/%d\<close>
  has the sequence placeholder in its path, where \<open>%d\<close> is not a valid escape, so
  \<open>url.Parse\<close> returns an error: the template is stored and the host stays that of the
  template before, \<open>a.example\<close>.
\<close>

theorem C9_stale_host_counterexample:
  "url_Parse_model ''https://b.example/videoplayback/id/1/sq/%d'' = None \<and>
   DownloadURL (MDLInfo (SetDownloadUrl url_Parse_model DtypeVideo
       ''https://b.example/videoplayback/id/1/sq/%d'' di_a) DtypeVideo) =
     ''https://b.example/videoplayback/id/1/sq/%d'' \<and>
   URLHost (MDLInfo (SetDownloadUrl url_Parse_model DtypeVideo
       ''https://b.example/videoplayback/id/1/sq/%d'' di_a) DtypeVideo) = ''a.example''"
  by (simp add: SetDownloadUrl_def di_a_def url_a_def url_Parse_model_def
       stringContainsCTLByte_def NewDownloadInfo_def emptyMediaDLInfo_def Let_def)

subsection \<open>Failure to create the output file\<close>



subsection \<open>The retry policy of the Worker\<close>

lemma attempt_Retry:
  assumes "attempt h w state = Retry state1 evs"
  shows "Tries state1 = Tries state + 1 \<and> SleepTime state1 = SleepTime state \<and>
         Url state1 = Url state \<and> SeqNum state1 = SeqNum state \<and>
         ContinueFragmentDownload h (w_di w) state1 \<and>
         (evs = [request_of (w_di w) w state, Sleep (SleepTime state)] \<or>
          (\<exists>n b. evs = [request_of (w_di w) w state, WriteFile n b, Sleep (SleepTime state)]))"
  using assms
  by (auto simp: attempt_def retry_def Let_def split: if_splits option.splits)

lemma attempt_Return:
  assumes "attempt h w state = Return state1 frag evs"
  shows "Url state1 = Url state \<and> SeqNum state1 = SeqNum state \<and>
         (evs = [] \<or> evs = [request_of (w_di w) w state] \<or>
          (\<exists>n b. evs = [request_of (w_di w) w state, WriteFile n b]) \<or>
          (\<exists>n b m. evs = [request_of (w_di w) w state, WriteFile n b, TryDelete m]))"
  using assms
  by (auto simp: attempt_def retry_def Let_def split: if_splits option.splits)

lemma retry_eq:
  "retry h di state evs [] =
     (if ContinueFragmentDownload h di (state\<lparr>Tries := Tries state + 1\<rparr>)
      then Retry (state\<lparr>Tries := Tries state + 1\<rparr>) (evs @ [Sleep (SleepTime state)])
      else Return (state\<lparr>Tries := Tries state + 1\<rparr>) None evs)"
  by (simp add: retry_def Let_def)

lemma attempt_failed_fetch:
  assumes f: "failed_fetch w" and s: "\<not> IsStopping (w_di w)"
  shows "\<exists>state1. Tries state1 = Tries state + 1 \<and>
           attempt h w state =
             (if ContinueFragmentDownload h (w_di w) state1
              then Retry state1 [request_of (w_di w) w state, Sleep (SleepTime state)]
              else Return state1 None [request_of (w_di w) w state])"
proof -
  let ?st = "\<lambda>b. state\<lparr>Is403 := b\<rparr>"
  have r: "request_of (w_di w) w (?st b) = request_of (w_di w) w state" for b
    by (simp add: request_of_def Let_def)
  have "attempt h w state = retry h (w_di w) state [request_of (w_di w) w state] [] \<or>
        (\<exists>b. attempt h w state = retry h (w_di w) (?st b) [request_of (w_di w) w state] [])"
  proof (cases "Do w")
    case None
    with s show ?thesis by (simp add: attempt_def Let_def)
  next
    case (Some resp)
    note d = this
    show ?thesis
    proof (cases "ReadAll resp")
      case None
      with s d show ?thesis by (simp add: attempt_def Let_def)
    next
      case (Some respData)
      with f d have "StatusCode resp \<ge> 400 \<or> respData = []"
        by (simp add: failed_fetch_def)
      with s d Some show ?thesis by (auto simp: attempt_def Let_def)
    qed
  qed
  then show ?thesis
  proof
    assume a: "attempt h w state = retry h (w_di w) state [request_of (w_di w) w state] []"
    show ?thesis
      by (rule exI[of _ "state\<lparr>Tries := Tries state + 1\<rparr>"]) (simp add: a retry_eq)
  next
    assume "\<exists>b. attempt h w state = retry h (w_di w) (?st b) [request_of (w_di w) w state] []"
    then obtain b where
      a: "attempt h w state = retry h (w_di w) (?st b) [request_of (w_di w) w state] []" ..
    show ?thesis
      by (rule exI[of _ "(?st b)\<lparr>Tries := Tries state + 1\<rparr>"]) (simp add: a retry_eq)
  qed
qed

lemma attempt_failed_no_frag:
  "failed_fetch w \<Longrightarrow> attempt h w state \<noteq> Return state1 (Some frag) evs"
  by (auto simp: attempt_def retry_def failed_fetch_def Let_def split: option.splits if_splits)

lemma is_Get_request_of [simp]: "is_Get (request_of di w state)"
  by (simp add: request_of_def Let_def)

lemma sleeps_between_request_of [simp]:
  "sleeps_between d b (request_of di w state # es) = (b \<and> sleeps_between d False es)"
  by (simp add: request_of_def Let_def)

lemma sleeps_between_append:
  "sleeps_between d b xs \<Longrightarrow> (xs = [] \<longrightarrow> b) \<Longrightarrow> (xs \<noteq> [] \<longrightarrow> last xs = Sleep d) \<Longrightarrow>
   sleeps_between d True ys \<Longrightarrow> sleeps_between d b (xs @ ys)"
proof (induction xs arbitrary: b)
  case Nil
  then show ?case by simp
next
  case (Cons x xs)
  show ?case
  proof (cases "xs = []")
    case True
    with Cons.prems show ?thesis by simp
  next
    case False
    with Cons show ?thesis by (cases x) auto
  qed
qed

lemma loop_attempts:
  "downloadFragment_loop h env k state tr = (state1, frag, tr1) \<Longrightarrow>
   length (filter is_Get tr1) \<le> length (filter is_Get tr) + nat (FragMaxTries - Tries state)"
proof (induction h env k state tr rule: downloadFragment_loop.induct)
  case (1 h env k state tr)
  show ?case
  proof (cases "Tries state < FragMaxTries")
    case False
    with "1.prems" show ?thesis by (simp add: downloadFragment_loop.simps)
  next
    case True
    show ?thesis
    proof (cases "attempt h (env k) state")
      case (Retry s evs)
      from attempt_Retry[OF Retry] have t: "Tries s = Tries state + 1"
        and g: "length (filter is_Get evs) = 1" by auto
      from "1.prems" True Retry
      have "downloadFragment_loop h env (Suc k) s (tr @ evs) = (state1, frag, tr1)"
        by (simp add: downloadFragment_loop.simps[of h env k])
      from "1.IH"[OF True Retry this] t g True show ?thesis by simp
    next
      case (Return s fr evs)
      from attempt_Return[OF Return] have g: "length (filter is_Get evs) \<le> 1" by auto
      from "1.prems" True Return have "tr1 = tr @ evs"
        by (simp add: downloadFragment_loop.simps[of h env k])
      with g True show ?thesis by simp
    qed
  qed
qed

lemma loop_sleeps:
  "downloadFragment_loop h env k state tr = (state1, frag, tr1) \<Longrightarrow>
   sleeps_between (SleepTime state) True tr \<Longrightarrow>
   (tr \<noteq> [] \<longrightarrow> last tr = Sleep (SleepTime state)) \<Longrightarrow>
   sleeps_between (SleepTime state) True tr1"
proof (induction h env k state tr rule: downloadFragment_loop.induct)
  case (1 h env k state tr)
  show ?case
  proof (cases "Tries state < FragMaxTries")
    case False
    with "1.prems" show ?thesis by (simp add: downloadFragment_loop.simps)
  next
    case True
    show ?thesis
    proof (cases "attempt h (env k) state")
      case (Retry s evs)
      from attempt_Retry[OF Retry] have t: "SleepTime s = SleepTime state"
        and e: "sleeps_between (SleepTime state) True evs" "evs \<noteq> []"
          "last evs = Sleep (SleepTime state)"
        by auto
      from "1.prems" True Retry
      have r: "downloadFragment_loop h env (Suc k) s (tr @ evs) = (state1, frag, tr1)"
        by (simp add: downloadFragment_loop.simps[of h env k])
      have "sleeps_between (SleepTime state) True (tr @ evs)"
        using sleeps_between_append[OF "1.prems"(2) _ "1.prems"(3) e(1)] by simp
      with "1.IH"[OF True Retry r] t e show ?thesis by simp
    next
      case (Return s fr evs)
      from attempt_Return[OF Return] have e: "sleeps_between (SleepTime state) True evs"
        by auto
      from "1.prems" True Return have "tr1 = tr @ evs"
        by (simp add: downloadFragment_loop.simps[of h env k])
      with sleeps_between_append[OF "1.prems"(2) _ "1.prems"(3) e] show ?thesis by simp
    qed
  qed
qed

lemma loop_all_failed:
  "downloadFragment_loop h env k state tr = (state1, frag, tr1) \<Longrightarrow>
   Tries state = int k \<Longrightarrow> (\<forall>j. k \<le> j \<and> int j < FragMaxTries \<longrightarrow> failed_fetch (env j)) \<Longrightarrow>
   frag = None"
proof (induction h env k state tr rule: downloadFragment_loop.induct)
  case (1 h env k state tr)
  show ?case
  proof (cases "Tries state < FragMaxTries")
    case False
    with "1.prems" show ?thesis by (simp add: downloadFragment_loop.simps)
  next
    case True
    with "1.prems" have ff: "failed_fetch (env k)" by simp
    show ?thesis
    proof (cases "attempt h (env k) state")
      case (Retry s evs)
      from attempt_Retry[OF Retry] have t: "Tries s = int (Suc k)" using "1.prems"(2) by simp
      from "1.prems" True Retry
      have r: "downloadFragment_loop h env (Suc k) s (tr @ evs) = (state1, frag, tr1)"
        by (simp add: downloadFragment_loop.simps[of h env k])
      from "1.IH"[OF True Retry r t] "1.prems"(3) show ?thesis by simp
    next
      case (Return s fr evs)
      from "1.prems" True Return have "frag = fr"
        by (simp add: downloadFragment_loop.simps[of h env k])
      with attempt_failed_no_frag[OF ff] Return show ?thesis by (cases fr) auto
    qed
  qed
qed



subsection \<open>The URL a Worker requests\<close>

lemma attempt_events_template:
  "list_all (from_template (Url state)) (events_of (attempt h w state))"
  by (cases "attempt h w state")
     (auto dest!: attempt_Retry attempt_Return simp: request_of_def Let_def)

lemma loop_templates:
  "downloadFragment_loop h env k state tr = (state1, frag, tr1) \<Longrightarrow>
   list_all (from_template (Url state)) tr \<Longrightarrow>
   Url state1 = Url state \<and> list_all (from_template (Url state)) tr1"
proof (induction h env k state tr rule: downloadFragment_loop.induct)
  case (1 h env k state tr)
  show ?case
  proof (cases "Tries state < FragMaxTries")
    case False
    with "1.prems" show ?thesis by (simp add: downloadFragment_loop.simps)
  next
    case True
    show ?thesis
    proof (cases "attempt h (env k) state")
      case (Retry s evs)
      from attempt_Retry[OF Retry] have u: "Url s = Url state" by simp
      from attempt_events_template[of state h "env k"] Retry
      have e: "list_all (from_template (Url state)) evs" by simp
      from "1.prems" True Retry
      have r: "downloadFragment_loop h env (Suc k) s (tr @ evs) = (state1, frag, tr1)"
        by (simp add: downloadFragment_loop.simps[of h env k])
      from "1.IH"[OF True Retry r] u e "1.prems"(2) show ?thesis by simp
    next
      case (Return s fr evs)
      from attempt_Return[OF Return] have u: "Url s = Url state" by simp
      from attempt_events_template[of state h "env k"] Return
      have e: "list_all (from_template (Url state)) evs" by simp
      from "1.prems" True Return have "tr1 = tr @ evs" "state1 = s"
        by (simp_all add: downloadFragment_loop.simps[of h env k])
      with u e "1.prems"(2) show ?thesis by simp
    qed
  qed
qed

lemma downloadFragment_templates:
  "downloadFragment h env state = (state1, frag, tr) \<Longrightarrow>
   Url state1 = Url state \<and> list_all (from_template (Url state)) tr"
  using loop_templates[of h env 0 "state\<lparr>Tries := 0, FullRetries := 3, Is403 := False\<rparr>" "[]"
          state1 frag tr]
  by (simp add: downloadFragment_def)

lemma DownloadFrags_loop_templates:
  "DownloadFrags_loop h dataType state ds out tr = (left, out1, tr1) \<Longrightarrow>
   list_all (from_template (Url state)) tr \<Longrightarrow>
   list_all (from_template (Url state)) tr1"
proof (induction ds arbitrary: state out tr)
  case Nil
  then show ?case by simp
next
  case (Cons d ds)
  show ?case
  proof (cases "DownloadFrags_body h dataType state d")
    case (Break di)
    with Cons.prems show ?thesis by simp
  next
    case (Downloaded s fr evs)
    then have "downloadFragment h (d_env d)
        (state\<lparr>SeqNum := CurSequence (d_seqInfo d), MaxSeq := MaxSequence (d_seqInfo d)\<rparr>) =
          (s, fr, evs)"
      by (auto simp: DownloadFrags_body_def Let_def split: if_splits prod.splits)
    from downloadFragment_templates[OF this] have u: "Url s = Url state"
      and e: "list_all (from_template (Url state)) evs"
      by auto
    from Cons.prems Downloaded
    have "DownloadFrags_loop h dataType s ds
            (out @ (case fr of None \<Rightarrow> [] | Some x \<Rightarrow> [x])) (tr @ evs) = (left, out1, tr1)"
      by simp
    from Cons.IH[OF this] u e Cons.prems(2) show ?thesis by simp
  qed
qed

lemma attempt_first_event:
  assumes "\<not> IsStopping (w_di w)"
  shows "\<exists>evs. events_of (attempt h w st) = request_of (w_di w) w st # evs"
  using assms
  by (auto simp: attempt_def retry_def Let_def split: if_splits option.splits)

text \<open>
  C7 (as amended). A Worker reads the track's \<open>download_url_template\<close> through the
  accessor once, when it starts, and keeps it in its state: every request it makes, for
  every sequence and at every retry, is formatted from that template, whatever the
  shared state holds by then. What a Worker reads anew through an accessor at every
  attempt is the host for the \<open>Host\<close> and \<open>Referer\<close> headers.
\<close>

theorem C7_worker_keeps_its_template:
  "(\<forall>di1 out tr.
      DownloadFrags h dataType name di0 ds di_end = (di1, out, tr)
      \<longrightarrow> list_all (from_template (GetDownloadUrl di0 dataType)) tr) \<and>
   (\<forall>w st. \<not> IsStopping (w_di w) \<longrightarrow>
      (\<exists>evs. events_of (attempt h w st) =
         Get (Url st) (SeqNum st)
           (if NewRequest_ok w \<and> GetDownloadUrlHost (w_di w) (DataType st) \<noteq> []
            then Some (GetDownloadUrlHost (w_di w) (DataType st)) else None) # evs))"
proof -
  have a: "list_all (from_template (GetDownloadUrl di0 dataType)) tr"
    if r: "DownloadFrags h dataType name di0 ds di_end = (di1, out, tr)" for di1 out tr
  proof -
    obtain left out1 tr1 where
      l: "DownloadFrags_loop h dataType (initial_state dataType name di0) ds [] [] =
            (left, out1, tr1)"
      by (metis prod_cases3)
    with r have t: "tr1 = tr" by (simp add: DownloadFrags_def)
    have "Url (initial_state dataType name di0) = GetDownloadUrl di0 dataType"
      by (simp add: initial_state_def NewFragThreadState_def)
    with DownloadFrags_loop_templates[OF l] t show ?thesis by simp
  qed
  have b: "\<exists>evs. events_of (attempt h w st) =
         Get (Url st) (SeqNum st)
           (if NewRequest_ok w \<and> GetDownloadUrlHost (w_di w) (DataType st) \<noteq> []
            then Some (GetDownloadUrlHost (w_di w) (DataType st)) else None) # evs"
    if "\<not> IsStopping (w_di w)" for w st
    using attempt_first_event[OF that, of h st] by (simp add: request_of_def Let_def)
  from a b show ?thesis by blast
qed

text \<open>A run of one Worker in which the template is rewritten between two attempts.\<close>

lemma di_b_fields:
  "GetDownloadUrl di_b DtypeVideo = url_b" "GetDownloadUrlHost di_b DtypeVideo = ''b.example''"
  "GetDownloadUrl di_a DtypeVideo = url_a" "GetDownloadUrlHost di_a DtypeVideo = ''a.example''"
  "\<not> IsStopping di_a" "\<not> IsStopping di_b" "\<not> IsFinished di_a DtypeVideo"
  "\<not> FragFiles di_a" "TargetDuration di_a = 5" "GetBaseFilePath di_a DtypeVideo = []"
  "\<not> IsLive di_a"
  by (simp_all add: di_b_def di_a_def url_a_def url_b_def SetDownloadUrl_def url_Parse_model_def
       stringContainsCTLByte_def NewDownloadInfo_def emptyMediaDLInfo_def GetDownloadUrl_def
       GetDownloadUrlHost_def IsStopping_def IsFinished_def IsLive_def GetBaseFilePath_def
       DtypeVideo_def Let_def)

lemma state_a_eq:
  "state_a = \<lparr>Name = ''video1'', Url = url_a, BaseFilePath = [], DataType = DtypeVideo,
      SeqNum = 0, MaxSeq = 0, Tries = 0, FullRetries = 0, Is403 = False,
      ToFile = False, SleepTime = 5000000000\<rparr>"
  by (simp add: state_a_def initial_state_def NewFragThreadState_def di_b_fields Second_def)

lemma refresh_run:
  "DownloadFrags hooks0 DtypeVideo ''video1'' di_a
     [\<lparr>d_seqInfo = \<lparr>CurSequence = 0, MaxSequence = - 1\<rparr>, d_di = di_a, d_env = env_refresh\<rparr>]
     di_b =
   (DecrementJobs DtypeVideo di_b,
    [\<lparr>Seq = 0, FileName = ''.frag0.ts'', XHeadSeqNum = 4, Data = Some ''e''\<rparr>],
    [Get url_a 0 (Some ''a.example''), Sleep 5000000000, Get url_a 0 (Some ''b.example'')])"
  apply (simp add: DownloadFrags_def DownloadFrags_body_def di_b_fields state_a_def[symmetric] Let_def)
  apply (simp add: state_a_eq downloadFragment_def downloadFragment_loop.simps FragMaxTries_def
       attempt_def retry_def request_of_def env_refresh_def world_ok_def world_status_def
       di_b_fields hooks0_def Header_Get_def headerSeqnum_of_def fname_of_def
       Atoi_body_def is_digit_def digits_val_def digit_val_def Itoa_digit digit_char_def Let_def)
  done

theorem C7_worker_template_witness:
  "DownloadFrags hooks0 DtypeVideo ''video1'' di_a
     [\<lparr>d_seqInfo = \<lparr>CurSequence = 0, MaxSequence = - 1\<rparr>, d_di = di_a, d_env = env_refresh\<rparr>]
     di_b =
   (DecrementJobs DtypeVideo di_b,
    [\<lparr>Seq = 0, FileName = ''.frag0.ts'', XHeadSeqNum = 4, Data = Some ''e''\<rparr>],
    [Get url_a 0 (Some ''a.example''), Sleep 5000000000, Get url_a 0 (Some ''b.example'')]) \<and>
   list_all (from_template (GetDownloadUrl di_a DtypeVideo))
    [Get url_a 0 (Some ''a.example''), Sleep 5000000000, Get url_a 0 (Some ''b.example'')]"
  using C7_worker_keeps_its_template[of hooks0 DtypeVideo "''video1''" di_a
          "[\<lparr>d_seqInfo = \<lparr>CurSequence = 0, MaxSequence = - 1\<rparr>, d_di = di_a,
             d_env = env_refresh\<rparr>]" di_b]
        refresh_run
  by blast

text \<open>
  C7 as the specification states it does not hold. The first fetch of sequence 0 is answered 403; before the
  second attempt a refresh rewrites the template to \<open>url_b\<close> on another host. The
  accessor returns \<open>url_b\<close> at the second attempt, and the Worker requests \<open>url_a\<close> again,
  now with the new host in its \<open>Host\<close> header.
\<close>

theorem C7_cached_template_counterexample:
  "GetDownloadUrl (w_di (env_refresh 1)) DtypeVideo = url_b \<and> url_b \<noteq> url_a \<and>
   snd (snd (DownloadFrags hooks0 DtypeVideo ''video1'' di_a
     [\<lparr>d_seqInfo = \<lparr>CurSequence = 0, MaxSequence = - 1\<rparr>, d_di = di_a, d_env = env_refresh\<rparr>]
     di_b)) =
    [Get url_a 0 (Some ''a.example''), Sleep 5000000000, Get url_a 0 (Some ''b.example'')]"
  by (simp add: refresh_run env_refresh_def world_ok_def di_b_fields) (simp add: url_a_def url_b_def)

subsection \<open>Dispatching\<close>

lemma send_fields [simp]:
  "seqChan (send c) = seqChan c @ [\<lparr>CurSequence = curSeq c, MaxSequence = maxSeqs c\<rparr>]"
  "curSeq (send c) = curSeq c + 1"
  "activeDownloads (send c) = activeDownloads c + 1"
  "maxSeqs (send c) = maxSeqs c"
  "dataToWrite (send c) = dataToWrite c"
  "curFrag (send c) = curFrag c"
  "tries (send c) = tries c"
  "closed (send c) = closed c"
  "outf (send c) = outf c"
  "progressChan (send c) = progressChan c"
  "files (send c) = files c"
  "writes (send c) = writes c"
  "deletingFrags (send c) = deletingFrags c"
  "jobNum (send c) = jobNum c"
  by (simp_all add: send_def)

lemma funpow_send_fields [simp]:
  "curSeq ((send ^^ n) c) = curSeq c + int n"
  "activeDownloads ((send ^^ n) c) = activeDownloads c + int n"
  "maxSeqs ((send ^^ n) c) = maxSeqs c"
  "dataToWrite ((send ^^ n) c) = dataToWrite c"
  "curFrag ((send ^^ n) c) = curFrag c"
  "tries ((send ^^ n) c) = tries c"
  "closed ((send ^^ n) c) = closed c"
  "outf ((send ^^ n) c) = outf c"
  "progressChan ((send ^^ n) c) = progressChan c"
  "files ((send ^^ n) c) = files c"
  "writes ((send ^^ n) c) = writes c"
  "deletingFrags ((send ^^ n) c) = deletingFrags c"
  "jobNum ((send ^^ n) c) = jobNum c"
  by (induction n) simp_all

lemma funpow_send_seqChan:
  "seqChan ((send ^^ n) c) =
     seqChan c @ map (\<lambda>k. \<lparr>CurSequence = curSeq c + int k, MaxSequence = maxSeqs c\<rparr>) [0..<n]"
  by (induction n) simp_all

lemma dispatch_funpow:
  "dispatch jobs c =
     (send ^^ nat (min (maxSeqs c + 2 - curSeq c) (jobs - activeDownloads c))) c"
proof (induction jobs c rule: dispatch.induct)
  case (1 jobs c)
  show ?case
  proof (cases "curSeq c \<le> maxSeqs c + 1 \<and> activeDownloads c < jobs")
    case False
    then have "nat (min (maxSeqs c + 2 - curSeq c) (jobs - activeDownloads c)) = 0" by auto
    with False show ?thesis by (auto simp: dispatch.simps[of jobs c])
  next
    case True
    then obtain m where
      m: "nat (min (maxSeqs c + 2 - curSeq c) (jobs - activeDownloads c)) = Suc m"
      by (cases "nat (min (maxSeqs c + 2 - curSeq c) (jobs - activeDownloads c))") auto
    then have "nat (min (maxSeqs (send c) + 2 - curSeq (send c))
                 (jobs - activeDownloads (send c))) = m"
      by simp
    with "1.IH"[OF True] have "dispatch jobs (send c) = (send ^^ m) (send c)" by simp
    with True m show ?thesis by (simp add: dispatch.simps[of jobs c] funpow_swap1)
  qed
qed

lemma redispatch_funpow: "redispatch n c = (send ^^ nat (n - activeDownloads c)) c"
proof (induction n c rule: redispatch.induct)
  case (1 n c)
  show ?case
  proof (cases "activeDownloads c < n")
    case False
    then show ?thesis by (simp add: redispatch.simps[of n c])
  next
    case True
    then obtain m where m: "nat (n - activeDownloads c) = Suc m"
      by (cases "nat (n - activeDownloads c)") auto
    then have "nat (n - activeDownloads (send c)) = m" by simp
    with "1.IH"[OF True] have "redispatch n (send c) = (send ^^ m) (send c)" by simp
    with True m show ?thesis by (simp add: redispatch.simps[of n c] funpow_swap1)
  qed
qed

lemma upto_split_at:
  "i \<le> j \<Longrightarrow> j \<le> k + 1 \<Longrightarrow> [i..k] = [i..j - 1] @ [j..(k::int)]"
proof (cases "i = j")
  case True
  then show ?thesis by simp
next
  case False
  assume "i \<le> j" "j \<le> k + 1"
  with False upto_split2[of i "j - 1" k] show ?thesis by simp
qed

lemma dispatched_after_refl [simp]: "dispatched_after c c"
  by (simp add: dispatched_after_def)

lemma dispatched_after_trans:
  "dispatched_after c c1 \<Longrightarrow> dispatched_after c1 c2 \<Longrightarrow> dispatched_after c c2"
proof -
  assume a: "dispatched_after c c1" and b: "dispatched_after c1 c2"
  from a obtain n1 where 1: "curSeq c \<le> curSeq c1" "seqChan c1 = seqChan c @ n1"
    "map CurSequence n1 = [curSeq c .. curSeq c1 - 1]"
    by (auto simp: dispatched_after_def)
  from b obtain n2 where 2: "curSeq c1 \<le> curSeq c2" "seqChan c2 = seqChan c1 @ n2"
    "map CurSequence n2 = [curSeq c1 .. curSeq c2 - 1]"
    by (auto simp: dispatched_after_def)
  have "[curSeq c .. curSeq c2 - 1] = [curSeq c .. curSeq c1 - 1] @ [curSeq c1 .. curSeq c2 - 1]"
    using 1(1) 2(1) upto_split_at[of "curSeq c" "curSeq c1" "curSeq c2 - 1"] by simp
  with 1 2 have "seqChan c2 = seqChan c @ (n1 @ n2) \<and>
      map CurSequence (n1 @ n2) = [curSeq c .. curSeq c2 - 1]"
    by simp
  with 1(1) 2(1) show ?thesis unfolding dispatched_after_def by (intro conjI exI) auto
qed

lemma dispatched_after_funpow: "dispatched_after c ((send ^^ n) c)"
proof -
  have "map CurSequence
          (map (\<lambda>k. \<lparr>CurSequence = curSeq c + int k, MaxSequence = maxSeqs c\<rparr>) [0..<n]) =
        [curSeq c .. curSeq c + int n - 1]"
  proof (induction n)
    case 0
    then show ?case by simp
  next
    case (Suc n)
    have "[curSeq c .. curSeq c + int (Suc n) - 1] =
          [curSeq c .. curSeq c + int n - 1] @ [curSeq c + int n]"
      using upto_rec2[of "curSeq c" "curSeq c + int n"] by simp
    with Suc show ?case by simp
  qed
  then show ?thesis by (simp add: dispatched_after_def funpow_send_seqChan)
qed

lemma dispatched_after_send: "dispatched_after c (send c)"
  using dispatched_after_funpow[of c 1] by simp

lemma dispatched_after_cong:
  "seqChan c1 = seqChan c \<Longrightarrow> curSeq c1 = curSeq c \<Longrightarrow> dispatched_after c1 c2
   \<Longrightarrow> dispatched_after c c2"
  by (simp add: dispatched_after_def)

lemma in_order_after: "in_order c \<Longrightarrow> dispatched_after c c1 \<Longrightarrow> in_order c1"
proof -
  assume a: "in_order c" and b: "dispatched_after c c1"
  from b obtain new where 1: "curSeq c \<le> curSeq c1" "seqChan c1 = seqChan c @ new"
    "map CurSequence new = [curSeq c .. curSeq c1 - 1]"
    by (auto simp: dispatched_after_def)
  from a have 2: "0 \<le> curSeq c" "map CurSequence (seqChan c) = [0 .. curSeq c - 1]"
    by (simp_all add: in_order_def)
  have "[0 .. curSeq c1 - 1] = [0 .. curSeq c - 1] @ [curSeq c .. curSeq c1 - 1]"
    using 1(1) 2(1) upto_split_at[of 0 "curSeq c" "curSeq c1 - 1"] by simp
  with 1 2 show ?thesis by (simp add: in_order_def)
qed

lemma receive_eq:
  "receive jobs True False c data =
     (let c1 = c\<lparr>dataToWrite := dataToWrite c @ [data],
                 activeDownloads := activeDownloads c - 1,
                 maxSeqs := max (maxSeqs c) (XHeadSeqNum data)\<rparr>
      in if maxSeqs c1 > 0
         then (send ^^ nat (min (maxSeqs c1 + 2 - curSeq c1) (jobs - activeDownloads c1))) c1
         else send c1)"
proof (cases "XHeadSeqNum data > maxSeqs c")
  case True
  then have "max (maxSeqs c) (XHeadSeqNum data) = XHeadSeqNum data" by simp
  with True show ?thesis by (simp add: receive_def dispatch_funpow Let_def)
next
  case False
  then have m: "max (maxSeqs c) (XHeadSeqNum data) = maxSeqs c" by simp
  have "c\<lparr>dataToWrite := dataToWrite c @ [data], activeDownloads := activeDownloads c - 1,
          maxSeqs := maxSeqs c\<rparr> =
        c\<lparr>dataToWrite := dataToWrite c @ [data], activeDownloads := activeDownloads c - 1\<rparr>"
    by simp
  with False m show ?thesis by (simp add: receive_def dispatch_funpow Let_def)
qed

lemma receive_active:
  "activeDownloads c \<le> jobs \<Longrightarrow> activeDownloads (receive jobs downloading stopping c data) \<le> jobs"
  by (cases "\<not> downloading \<or> stopping")
     (auto simp: receive_def dispatch_funpow Let_def)

lemma receive_after: "dispatched_after c (receive jobs downloading stopping c data)"
proof (cases "\<not> downloading \<or> stopping")
  case True
  then show ?thesis by (auto simp: receive_def Let_def dispatched_after_def)
next
  case False
  let ?c1 = "c\<lparr>dataToWrite := dataToWrite c @ [data],
               activeDownloads := activeDownloads c - 1\<rparr>"
  let ?c2 = "if XHeadSeqNum data > maxSeqs ?c1 then ?c1\<lparr>maxSeqs := XHeadSeqNum data\<rparr> else ?c1"
  have s: "seqChan ?c2 = seqChan c" "curSeq ?c2 = curSeq c" by simp_all
  from False have r: "receive jobs downloading stopping c data =
      (if maxSeqs ?c2 > 0 then dispatch jobs ?c2 else send ?c2)"
    by (simp add: receive_def Let_def)
  show ?thesis
  proof (cases "maxSeqs ?c2 > 0")
    case True
    with r have "receive jobs downloading stopping c data =
        (send ^^ nat (min (maxSeqs ?c2 + 2 - curSeq ?c2) (jobs - activeDownloads ?c2))) ?c2"
      by (simp only: dispatch_funpow if_True)
    with dispatched_after_cong[OF s dispatched_after_funpow[of ?c2]] show ?thesis by simp
  next
    case False
    with r have "receive jobs downloading stopping c data = send ?c2" by (simp only: if_False)
    with dispatched_after_cong[OF s dispatched_after_send[of ?c2]] show ?thesis by simp
  qed
qed

lemma receive_frame:
  "curFrag (receive jobs downloading stopping c data) = curFrag c \<and>
   outf (receive jobs downloading stopping c data) = outf c \<and>
   progressChan (receive jobs downloading stopping c data) = progressChan c \<and>
   closed (receive jobs downloading stopping c data) = closed c \<and>
   tries (receive jobs downloading stopping c data) = tries c \<and>
   files (receive jobs downloading stopping c data) = files c \<and>
   writes (receive jobs downloading stopping c data) = writes c \<and>
   dataToWrite (receive jobs downloading stopping c data) = dataToWrite c @ [data]"
  by (simp add: receive_def dispatch_funpow Let_def)

lemma getData_active:
  "activeDownloads c \<le> jobs \<Longrightarrow>
   activeDownloads (getData jobs downloading stopping frs c) \<le> jobs"
  unfolding getData_def
  by (induction frs arbitrary: c) (simp_all add: receive_active)

lemma getData_after: "dispatched_after c (getData jobs downloading stopping frs c)"
  unfolding getData_def
proof (induction frs arbitrary: c)
  case Nil
  then show ?case by simp
next
  case (Cons a frs)
  from dispatched_after_trans[OF receive_after Cons[of "receive jobs downloading stopping c a"]]
  show ?case by simp
qed

lemma getData_frame:
  "curFrag (getData jobs downloading stopping frs c) = curFrag c \<and>
   outf (getData jobs downloading stopping frs c) = outf c \<and>
   progressChan (getData jobs downloading stopping frs c) = progressChan c \<and>
   closed (getData jobs downloading stopping frs c) = closed c \<and>
   tries (getData jobs downloading stopping frs c) = tries c \<and>
   files (getData jobs downloading stopping frs c) = files c \<and>
   writes (getData jobs downloading stopping frs c) = writes c \<and>
   dataToWrite (getData jobs downloading stopping frs c) = dataToWrite c @ frs"
  unfolding getData_def
  by (induction frs arbitrary: c) (simp_all add: receive_frame)

lemma written_frame:
  "seqChan (written ff dt i data bw c) = seqChan c \<and>
   curSeq (written ff dt i data bw c) = curSeq c \<and>
   activeDownloads (written ff dt i data bw c) = activeDownloads c \<and>
   maxSeqs (written ff dt i data bw c) = maxSeqs c \<and>
   closed (written ff dt i data bw c) = closed c"
  by (simp add: written_def Let_def split: option.splits)

lemma write_loop_frame:
  "write_loop R ff dt i c = Some c1 \<Longrightarrow>
   seqChan c1 = seqChan c \<and> curSeq c1 = curSeq c \<and>
   activeDownloads c1 = activeDownloads c \<and> maxSeqs c1 = maxSeqs c \<and> closed c1 = closed c"
proof (induction R ff dt i c rule: write_loop.induct)
  case (1 R ff dt i c)
  show ?case
  proof (cases "i < length (dataToWrite c) \<and> tries c > 0")
    case False
    with "1.prems" show ?thesis by (auto simp: write_loop.simps[of R ff dt i c])
  next
    case True
    note t = this
    show ?thesis
    proof (cases "Seq (dataToWrite c ! i) \<noteq> curFrag c")
      case True
      with t "1.prems" have "write_loop R ff dt (i + 1) c = Some c1"
        by (simp add: write_loop.simps[of R ff dt i c])
      from "1.IH"(1)[OF t True this] show ?thesis .
    next
      case False
      note f = this
      show ?thesis
      proof (cases "load_data ff (files c) (dataToWrite c ! i)")
        case LoadErr
        with t f "1.prems" have "write_loop R ff dt i (c\<lparr>tries := tries c - 1\<rparr>) = Some c1"
          by (simp add: write_loop.simps[of R ff dt i c])
        from "1.IH"(2)[OF t f LoadErr this] show ?thesis by simp
      next
        case LoadPanic
        with t f "1.prems" show ?thesis by (simp add: write_loop.simps[of R ff dt i c])
      next
        case (Loaded d)
        obtain err bw fl ws rest where
          w: "write_frag R d (writes c) (outf c) = (err, bw, fl, ws, rest)"
          by (metis prod_cases5)
        show ?thesis
        proof (cases err)
          case True
          with t f Loaded w "1.prems"
          have "write_loop R ff dt i
                  (c\<lparr>outf := fl, writes := ws,
                     dataToWrite := (dataToWrite c)[i := (dataToWrite c ! i)\<lparr>Data := Some rest\<rparr>],
                     tries := tries c - 1\<rparr>) = Some c1"
            by (simp add: write_loop.simps[of R ff dt i c])
          from "1.IH"(3)[OF t f Loaded w[symmetric] refl refl refl _ this] True
          show ?thesis by simp
        next
          case False
          with t f Loaded w "1.prems"
          have "write_loop R ff dt 0
                  (written ff dt i ((dataToWrite c ! i)\<lparr>Data := Some rest\<rparr>) bw
                     (c\<lparr>outf := fl, writes := ws\<rparr>)) = Some c1"
            by (simp add: write_loop.simps[of R ff dt i c])
          from "1.IH"(4)[OF t f Loaded w[symmetric] refl refl refl _ this] False
          show ?thesis by (simp add: written_frame)
        qed
      qed
    qed
  qed
qed

subsection \<open>The dispatch invariants of the Coordinator\<close>

lemma Stop_jobs:
  "Jobs (Stop di) = Jobs di \<and> GetActiveJobCount (Stop di) dt = GetActiveJobCount di dt"
  by (simp add: Stop_def SetFinished_def GetActiveJobCount_def)

lemma main_iter_after:
  assumes "main_iter P dt frs hour di c = Some (brk, di1, c1)"
  shows "dispatched_after c c1"
proof -
  let ?downloading = "\<not> IsFinished di dt \<or> GetActiveJobCount di dt > 0"
  let ?stopping = "IsStopping di"
  let ?c1 = "if (?stopping \<or> \<not> ?downloading) \<and> \<not> closed c then c\<lparr>closed := True\<rparr> else c"
  let ?c2 = "getData (Jobs di) ?downloading ?stopping frs ?c1"
  have s: "seqChan ?c1 = seqChan c" "curSeq ?c1 = curSeq c" by simp_all
  from dispatched_after_cong[OF s getData_after] have a2: "dispatched_after c ?c2" .
  from assms have "c1 = ?c2 \<or> c1 = redispatch (GetActiveJobCount di dt) ?c2 \<or>
      write_loop (RemoveSidx P) (FragFiles di) dt 0 ?c2 = Some c1"
    by (auto simp: main_iter_def Let_def split: if_splits option.splits)
  then show ?thesis
  proof (elim disjE)
    assume "c1 = ?c2"
    with a2 show ?thesis by simp
  next
    assume "c1 = redispatch (GetActiveJobCount di dt) ?c2"
    with dispatched_after_trans[OF a2 dispatched_after_funpow] show ?thesis
      by (simp only: redispatch_funpow)
  next
    assume "write_loop (RemoveSidx P) (FragFiles di) dt 0 ?c2 = Some c1"
    from write_loop_frame[OF this] a2 show ?thesis by (simp add: dispatched_after_def)
  qed
qed

lemma main_iter_active:
  assumes "main_iter P dt frs hour di c = Some (brk, di1, c1)"
    and "activeDownloads c \<le> Jobs di" and "GetActiveJobCount di dt \<le> Jobs di"
  shows "activeDownloads c1 \<le> Jobs di"
proof -
  let ?downloading = "\<not> IsFinished di dt \<or> GetActiveJobCount di dt > 0"
  let ?stopping = "IsStopping di"
  let ?c1 = "if (?stopping \<or> \<not> ?downloading) \<and> \<not> closed c then c\<lparr>closed := True\<rparr> else c"
  let ?c2 = "getData (Jobs di) ?downloading ?stopping frs ?c1"
  have "activeDownloads ?c1 \<le> Jobs di" using assms(2) by simp
  from getData_active[OF this] have a2: "activeDownloads ?c2 \<le> Jobs di" .
  from assms(1) have "c1 = ?c2 \<or> c1 = redispatch (GetActiveJobCount di dt) ?c2 \<or>
      write_loop (RemoveSidx P) (FragFiles di) dt 0 ?c2 = Some c1"
    by (auto simp: main_iter_def Let_def split: if_splits option.splits)
  then show ?thesis
  proof (elim disjE)
    assume "c1 = ?c2"
    with a2 show ?thesis by simp
  next
    assume "c1 = redispatch (GetActiveJobCount di dt) ?c2"
    with a2 assms(3) show ?thesis by (simp only: redispatch_funpow funpow_send_fields)
  next
    assume "write_loop (RemoveSidx P) (FragFiles di) dt 0 ?c2 = Some c1"
    from write_loop_frame[OF this] a2 show ?thesis by simp
  qed
qed

lemma main_iter_jobs:
  assumes "main_iter P dt frs hour di c = Some (brk, di1, c1)"
    and "keeps_jobs dt (GetVideoInfo P)"
  shows "Jobs di1 = Jobs di \<and> GetActiveJobCount di1 dt \<le> GetActiveJobCount di dt"
proof -
  from assms(1) have "di1 = di \<or> di1 = Stop di \<or> di1 = GetVideoInfo P di \<or>
      di1 = Stop (GetVideoInfo P di)"
    by (auto simp: main_iter_def Let_def split: if_splits option.splits)
  with assms(2) Stop_jobs show ?thesis by (auto simp: keeps_jobs_def)
qed

lemma bootstrap_inv:
  "bootstrap dt di c sp = (di1, c1, sp1) \<Longrightarrow>
   activeDownloads c \<le> GetActiveJobCount di dt \<Longrightarrow> GetActiveJobCount di dt \<le> Jobs di \<Longrightarrow>
   dispatched_after c c1 \<and> activeDownloads c1 \<le> Jobs di \<and> Jobs di1 = Jobs di \<and>
   GetActiveJobCount di1 dt \<le> Jobs di"
proof (induction dt di c sp rule: bootstrap.induct)
  case (1 dt di c sp)
  show ?case
  proof (cases "GetActiveJobCount di dt < Jobs di")
    case False
    with "1.prems" show ?thesis by (simp add: bootstrap.simps[of dt di c sp])
  next
    case True
    let ?di = "IncrementJobs dt di"
    let ?c = "(send c)\<lparr>jobNum := jobNum c + 1\<rparr>"
    from "1.prems"(1) True
    have r: "bootstrap dt ?di ?c (sp @ [dt @ Itoa (jobNum c)]) = (di1, c1, sp1)"
      by (simp add: bootstrap.simps[of dt di c sp])
    have j: "Jobs ?di = Jobs di" "GetActiveJobCount ?di dt = GetActiveJobCount di dt + 1"
      by (simp_all add: IncrementJobs_def GetActiveJobCount_def)
    have a: "activeDownloads ?c \<le> GetActiveJobCount ?di dt" using "1.prems"(2) j by simp
    have b: "GetActiveJobCount ?di dt \<le> Jobs ?di" using True j by simp
    have s: "seqChan ?c = seqChan (send c)" "curSeq ?c = curSeq (send c)" by simp_all
    from "1.IH"[OF True r a b] j
    have i: "dispatched_after ?c c1" "activeDownloads c1 \<le> Jobs di" "Jobs di1 = Jobs di"
      "GetActiveJobCount di1 dt \<le> Jobs di"
      by simp_all
    from i(1) s have "dispatched_after (send c) c1" by (simp add: dispatched_after_def)
    from dispatched_after_trans[OF dispatched_after_send this] i show ?thesis by simp
  qed
qed

lemma main_loop_inv:
  "main_loop P dt es di c = (st, di1, c1) \<Longrightarrow>
   list_all (\<lambda>e. keeps_jobs dt (others e)) es \<Longrightarrow> keeps_jobs dt (GetVideoInfo P) \<Longrightarrow>
   activeDownloads c \<le> Jobs di \<Longrightarrow> GetActiveJobCount di dt \<le> Jobs di \<Longrightarrow>
   dispatched_after c c1 \<and> activeDownloads c1 \<le> Jobs di"
proof (induction es arbitrary: di c)
  case Nil
  then show ?case by simp
next
  case (Cons e es)
  let ?di = "others e di"
  from Cons.prems(2) have k: "keeps_jobs dt (others e)" by simp
  then have j: "Jobs ?di = Jobs di" "GetActiveJobCount ?di dt \<le> GetActiveJobCount di dt"
    by (simp_all add: keeps_jobs_def)
  show ?case
  proof (cases "main_iter P dt (received e) (hour_passed e) ?di c")
    case None
    with Cons.prems show ?thesis by simp
  next
    case (Some r)
    obtain brk di2 c2 where r: "r = (brk, di2, c2)" by (metis prod_cases3)
    with Some have m: "main_iter P dt (received e) (hour_passed e) ?di c = Some (brk, di2, c2)"
      by simp
    have a0: "activeDownloads c \<le> Jobs ?di" "GetActiveJobCount ?di dt \<le> Jobs ?di"
      using Cons.prems(4,5) j by simp_all
    from main_iter_after[OF m] have d: "dispatched_after c c2" .
    from main_iter_active[OF m a0] j have a: "activeDownloads c2 \<le> Jobs di" by simp
    from main_iter_jobs[OF m Cons.prems(3)] j Cons.prems(5)
    have jj: "Jobs di2 = Jobs di" "GetActiveJobCount di2 dt \<le> Jobs di2" by simp_all
    show ?thesis
    proof (cases brk)
      case True
      with Cons.prems(1) m d a show ?thesis by simp
    next
      case False
      with Cons.prems(1) m have "main_loop P dt es di2 c2 = (st, di1, c1)" by simp
      from Cons.IH[OF this _ Cons.prems(3)] Cons.prems(2) a jj
      have "dispatched_after c2 c1 \<and> activeDownloads c1 \<le> Jobs di" by simp
      with dispatched_after_trans[OF d] show ?thesis by blast
    qed
  qed
qed

lemma DownloadStream_inv:
  assumes "0 \<le> GetActiveJobCount di dt" and "GetActiveJobCount di dt \<le> Jobs di"
    and "keeps_jobs dt (GetVideoInfo P)" and "list_all (\<lambda>e. keeps_jobs dt (others e)) es"
  shows "activeDownloads (r_coord (DownloadStream P dt True ws fs es di)) \<le> Jobs di \<and>
         in_order (r_coord (DownloadStream P dt True ws fs es di))"
proof -
  obtain di1 c1 sp where b: "bootstrap dt di (new_coord ws fs) [] = (di1, c1, sp)"
    by (metis prod_cases3)
  obtain st di2 c2 where m: "main_loop P dt es di1 c1 = (st, di2, c2)"
    by (metis prod_cases3)
  have n: "activeDownloads (new_coord ws fs) \<le> GetActiveJobCount di dt"
    using assms(1) by (simp add: new_coord_def)
  from bootstrap_inv[OF b n assms(2)]
  have i: "dispatched_after (new_coord ws fs) c1" "activeDownloads c1 \<le> Jobs di1"
    "Jobs di1 = Jobs di" "GetActiveJobCount di1 dt \<le> Jobs di1"
    by simp_all
  from main_loop_inv[OF m assms(4) assms(3) i(2) i(4)] i(3)
  have l: "dispatched_after c1 c2" "activeDownloads c2 \<le> Jobs di" by simp_all
  have "in_order (new_coord ws fs)" by (simp add: in_order_def new_coord_def)
  from in_order_after[OF in_order_after[OF this i(1)] l(1)] have o: "in_order c2" .
  have c: "activeDownloads (cleanup ff c2) = activeDownloads c2 \<and>
           in_order (cleanup ff c2) = in_order c2" for ff
    by (simp add: cleanup_def in_order_def)
  from b m l(2) o c show ?thesis by (simp add: DownloadStream_def)
qed


subsection \<open>A run of the two-sequence stream\<close>

lemma di_a_eq:
  "di_a = \<lparr>Stopping = False, InProgress = False, Live = False, Unavailable = False,
      GVideoDDL = False, FragFiles = False, Jobs = 1, TargetDuration = 5,
      MDLInfo = (\<lambda>t. emptyMediaDLInfo)(DtypeVideo :=
        emptyMediaDLInfo\<lparr>URLHost := ''a.example'', DownloadURL := url_a\<rparr>)\<rparr>"
  by (simp add: di_a_def SetDownloadUrl_def NewDownloadInfo_def url_a_def url_Parse_model_def
       stringContainsCTLByte_def Let_def)

lemma di_1_fields:
  "Jobs di_1 = 1" "GetActiveJobCount di_1 DtypeVideo = 1" "\<not> IsStopping di_1"
  "\<not> IsFinished di_1 DtypeVideo" "\<not> FragFiles di_1" "\<not> IsLive di_1" "\<not> IsUnavailable di_1"
  "GetDownloadUrl di_1 DtypeVideo = url_a" "GetDownloadUrlHost di_1 DtypeVideo = ''a.example''"
  "GetBaseFilePath di_1 DtypeVideo = []" "TargetDuration di_1 = 5"
  by (simp_all add: di_1_def di_a_eq IncrementJobs_def GetActiveJobCount_def IsStopping_def
       IsFinished_def IsLive_def IsUnavailable_def GetDownloadUrl_def GetDownloadUrlHost_def
       GetBaseFilePath_def emptyMediaDLInfo_def)

lemma di_a_jobs: "Jobs di_a = 1" "GetActiveJobCount di_a DtypeVideo = 0"
  by (simp_all add: di_a_eq GetActiveJobCount_def emptyMediaDLInfo_def)

lemma Itoa_1: "Itoa 1 = ''1''"
  by (simp add: Itoa_digit digit_char_def)

lemma bootstrap_a:
  "bootstrap DtypeVideo di_a (new_coord [] (\<lambda>n. None)) [] =
     (di_1, (send (new_coord [] (\<lambda>n. None)))\<lparr>jobNum := 2\<rparr>, [''video1''])"
proof -
  have n: "DtypeVideo @ Itoa 1 = ''video1''" by (simp add: Itoa_1 DtypeVideo_def)
  have "bootstrap DtypeVideo di_1 ((send (new_coord [] (\<lambda>n. None)))\<lparr>jobNum := 2\<rparr>) [''video1''] =
     (di_1, (send (new_coord [] (\<lambda>n. None)))\<lparr>jobNum := 2\<rparr>, [''video1''])"
    by (subst bootstrap.simps) (simp add: di_1_fields)
  then show ?thesis
    by (subst bootstrap.simps)
       (simp add: di_a_jobs di_1_def[symmetric] new_coord_def n)
qed

lemma c_boot_eq: "(send (new_coord [] (\<lambda>n. None)))\<lparr>jobNum := 2\<rparr> = c_boot"
  by (simp add: send_def new_coord_def c_boot_def)

lemma write_frag_a:
  "write_frag (\<lambda>b. b) ''a'' [] \<lparr>content = [], pos = 0\<rparr> =
     (False, 8192, \<lparr>content = CHR ''a'' # replicate 8191 (CHR 0x00), pos = 8192\<rparr>, [], [])"
  by (simp add: write_frag_def BufferSize_def f_Write_def pwrite_def write_rest.simps Let_def)

lemma getData_a: "getData 1 True False [frag_a] c_boot = c_drained"
  by (simp add: getData_def receive_eq c_boot_def frag_a_def c_drained_def send_def Let_def)

lemma write_loop_a: "write_loop (\<lambda>b. b) False DtypeVideo 0 c_drained = Some c_1"
proof -
  have e: "write_loop (\<lambda>b. b) False DtypeVideo 0 c_1 = Some c_1"
    by (subst write_loop.simps) (simp add: c_1_def)
  have w: "written False DtypeVideo 0 (frag_a\<lparr>Data := Some []\<rparr>) 8192
             (c_drained\<lparr>outf := \<lparr>content = CHR ''a'' # replicate 8191 (CHR 0x00), pos = 8192\<rparr>,
                        writes := []\<rparr>) = c_1"
    by (simp add: written_def c_drained_def c_1_def Let_def)
  have l: "load_data False (files c_drained) frag_a = Loaded ''a''"
    by (simp add: load_data_def c_drained_def frag_a_def)
  have f: "dataToWrite c_drained ! 0 = frag_a" "length (dataToWrite c_drained) = 1"
    "tries c_drained = 10" "curFrag c_drained = 0" "Seq frag_a = 0"
    "writes c_drained = []" "outf c_drained = \<lparr>content = [], pos = 0\<rparr>"
    by (simp_all add: c_drained_def frag_a_def)
  show ?thesis
    by (subst write_loop.simps) (simp add: l f write_frag_a w e)
qed

lemma iter_1: "main_iter params0 DtypeVideo [frag_a] False di_1 c_boot = Some (False, di_1, c_1)"
proof -
  have f: "closed c_boot = False" "dataToWrite c_drained = [frag_a]" "tries c_1 = 10"
    by (simp_all add: c_boot_def c_drained_def c_1_def)
  show ?thesis
    by (simp add: main_iter_def di_1_fields getData_a f write_loop_a params0_def Let_def)
qed

lemma di_2_fields:
  "GetActiveJobCount di_2 DtypeVideo = 0" "IsFinished di_2 DtypeVideo" "\<not> IsStopping di_2"
  "Jobs di_2 = 1" "\<not> FragFiles di_2"
  by (simp_all add: di_2_def di_1_def di_a_eq IncrementJobs_def DecrementJobs_def SetFinished_def
       GetActiveJobCount_def IsStopping_def IsFinished_def emptyMediaDLInfo_def)

lemma iter_2:
  "main_iter params0 DtypeVideo [] False di_2 c_1 = Some (True, di_2, c_1\<lparr>closed := True\<rparr>)"
  by (simp add: main_iter_def di_2_fields getData_def Let_def c_1_def)

lemma run_K1:
  "DownloadStream params0 DtypeVideo True [] (\<lambda>n. None) es_K1 di_a =
     \<lparr>status = Exited, r_di = di_2, r_coord = c_1\<lparr>closed := True\<rparr>, workers = [''video1''],
      done_sent = 1\<rparr>"
proof -
  have c: "cleanup False (c_1\<lparr>closed := True\<rparr>) = c_1\<lparr>closed := True\<rparr>"
    by (simp add: cleanup_def TryDelete_all_def c_1_def)
  show ?thesis
    by (simp add: DownloadStream_def bootstrap_a c_boot_eq es_K1_def iter_1
         di_2_def[symmetric] iter_2 di_2_fields c)
qed

lemma keeps_jobs_K1:
  "keeps_jobs DtypeVideo (GetVideoInfo params0)"
  "list_all (\<lambda>e. keeps_jobs DtypeVideo (others e)) es_K1"
  by (simp_all add: keeps_jobs_def params0_def es_K1_def DecrementJobs_def SetFinished_def
       GetActiveJobCount_def)


subsection \<open>The end of a stream\<close>

lemma worker_K1:
  "DownloadFrags hooks0 DtypeVideo ''video1'' di_1 deliveries_K1 di_1 =
     (di_2, [frag_a], [Get url_a 0 (Some ''a.example'')])"
proof -
  have s: "initial_state DtypeVideo ''video1'' di_1 =
      \<lparr>Name = ''video1'', Url = url_a, BaseFilePath = [], DataType = DtypeVideo,
       SeqNum = 0, MaxSeq = 0, Tries = 0, FullRetries = 0, Is403 = False,
       ToFile = False, SleepTime = 5000000000\<rparr>"
    by (simp add: initial_state_def NewFragThreadState_def di_1_fields Second_def)
  have d: "downloadFragment hooks0 (\<lambda>k. world_ok di_1 ''a'' (Some ''1''))
      \<lparr>Name = ''video1'', Url = url_a, BaseFilePath = [], DataType = DtypeVideo,
       SeqNum = 0, MaxSeq = - 1, Tries = 0, FullRetries = 0, Is403 = False,
       ToFile = False, SleepTime = 5000000000\<rparr> =
     (\<lparr>Name = ''video1'', Url = url_a, BaseFilePath = [], DataType = DtypeVideo,
       SeqNum = 0, MaxSeq = - 1, Tries = 0, FullRetries = 3, Is403 = False,
       ToFile = False, SleepTime = 5000000000\<rparr>, Some frag_a,
      [Get url_a 0 (Some ''a.example'')])"
    by (simp add: downloadFragment_def downloadFragment_loop.simps FragMaxTries_def
         attempt_def request_of_def world_ok_def di_1_fields Header_Get_def headerSeqnum_of_def
         fname_of_def Atoi_body_def is_digit_def digits_val_def digit_val_def Itoa_digit
         digit_char_def frag_a_def Let_def)
  show ?thesis
    by (simp add: DownloadFrags_def deliveries_K1_def DownloadFrags_body_def s d di_1_fields
         di_2_def Let_def)
qed

lemma getData_not_downloading:
  "seqChan (getData jobs False stopping frs c) = seqChan c \<and>
   curSeq (getData jobs False stopping frs c) = curSeq c"
  unfolding getData_def
  by (induction frs arbitrary: c) (simp_all add: receive_def Let_def)

lemma body_finishes:
  assumes "\<not> IsStopping (d_di d)" and "\<not> IsFinished (d_di d) dataType"
    and "MaxSequence (d_seqInfo d) > - 1" and "\<not> IsLive (d_di d)"
    and "CurSequence (d_seqInfo d) \<ge> MaxSequence (d_seqInfo d)"
  shows "DownloadFrags_body h dataType state d = Break (SetFinished dataType (d_di d)) \<and>
         IsFinished (SetFinished dataType (d_di d)) dataType"
  using assms by (simp add: DownloadFrags_body_def Let_def SetFinished_def IsFinished_def)

lemma main_iter_exit:
  assumes "IsFinished di dataType" and "GetActiveJobCount di dataType \<le> 0"
  shows "\<exists>c1. main_iter P dataType frs hour di c = Some (True, di, c1) \<and> closed c1 \<and>
           curFrag c1 = curFrag c \<and> outf c1 = outf c \<and> progressChan c1 = progressChan c \<and>
           seqChan c1 = seqChan c"
  using assms getData_frame[of jobs False]
  by (simp add: main_iter_def Let_def getData_frame getData_not_downloading)

lemma written_count:
  "curFrag (written ff dt i data bw c) = curFrag c + 1 \<and>
   length (progressChan (written ff dt i data bw c)) = length (progressChan c) + 1"
  by (simp add: written_def Let_def split: option.splits)

lemma write_loop_count:
  "write_loop R ff dt i c = Some c1 \<Longrightarrow>
   curFrag c1 - int (length (progressChan c1)) = curFrag c - int (length (progressChan c))"
proof (induction R ff dt i c rule: write_loop.induct)
  case (1 R ff dt i c)
  show ?case
  proof (cases "i < length (dataToWrite c) \<and> tries c > 0")
    case False
    with "1.prems" show ?thesis by (auto simp: write_loop.simps[of R ff dt i c])
  next
    case True
    note t = this
    show ?thesis
    proof (cases "Seq (dataToWrite c ! i) \<noteq> curFrag c")
      case True
      with t "1.prems" have "write_loop R ff dt (i + 1) c = Some c1"
        by (simp add: write_loop.simps[of R ff dt i c])
      from "1.IH"(1)[OF t True this] show ?thesis .
    next
      case False
      note f = this
      show ?thesis
      proof (cases "load_data ff (files c) (dataToWrite c ! i)")
        case LoadErr
        with t f "1.prems" have "write_loop R ff dt i (c\<lparr>tries := tries c - 1\<rparr>) = Some c1"
          by (simp add: write_loop.simps[of R ff dt i c])
        from "1.IH"(2)[OF t f LoadErr this] show ?thesis by simp
      next
        case LoadPanic
        with t f "1.prems" show ?thesis by (simp add: write_loop.simps[of R ff dt i c])
      next
        case (Loaded d)
        obtain err bw fl ws rest where
          w: "write_frag R d (writes c) (outf c) = (err, bw, fl, ws, rest)"
          by (metis prod_cases5)
        show ?thesis
        proof (cases err)
          case True
          with t f Loaded w "1.prems"
          have "write_loop R ff dt i
                  (c\<lparr>outf := fl, writes := ws,
                     dataToWrite := (dataToWrite c)[i := (dataToWrite c ! i)\<lparr>Data := Some rest\<rparr>],
                     tries := tries c - 1\<rparr>) = Some c1"
            by (simp add: write_loop.simps[of R ff dt i c])
          from "1.IH"(3)[OF t f Loaded w[symmetric] refl refl refl _ this] True
          show ?thesis by simp
        next
          case False
          with t f Loaded w "1.prems"
          have "write_loop R ff dt 0
                  (written ff dt i ((dataToWrite c ! i)\<lparr>Data := Some rest\<rparr>) bw
                     (c\<lparr>outf := fl, writes := ws\<rparr>)) = Some c1"
            by (simp add: write_loop.simps[of R ff dt i c])
          from "1.IH"(4)[OF t f Loaded w[symmetric] refl refl refl _ this] False
          show ?thesis by (simp add: written_count)
        qed
      qed
    qed
  qed
qed

lemma main_iter_count:
  assumes "main_iter P dt frs hour di c = Some (brk, di1, c1)"
  shows "curFrag c1 - int (length (progressChan c1)) = curFrag c - int (length (progressChan c))"
proof -
  let ?downloading = "\<not> IsFinished di dt \<or> GetActiveJobCount di dt > 0"
  let ?stopping = "IsStopping di"
  let ?c1 = "if (?stopping \<or> \<not> ?downloading) \<and> \<not> closed c then c\<lparr>closed := True\<rparr> else c"
  let ?c2 = "getData (Jobs di) ?downloading ?stopping frs ?c1"
  have a2: "curFrag ?c2 = curFrag c" "progressChan ?c2 = progressChan c"
    using getData_frame[of "Jobs di" ?downloading ?stopping frs ?c1] by simp_all
  from assms have "c1 = ?c2 \<or> c1 = redispatch (GetActiveJobCount di dt) ?c2 \<or>
      write_loop (RemoveSidx P) (FragFiles di) dt 0 ?c2 = Some c1"
    by (auto simp: main_iter_def Let_def split: if_splits option.splits)
  then show ?thesis
  proof (elim disjE)
    assume "c1 = ?c2"
    with a2 show ?thesis by simp
  next
    assume "c1 = redispatch (GetActiveJobCount di dt) ?c2"
    with a2 show ?thesis by (simp only: redispatch_funpow funpow_send_fields)
  next
    assume "write_loop (RemoveSidx P) (FragFiles di) dt 0 ?c2 = Some c1"
    from write_loop_count[OF this] a2 show ?thesis by simp
  qed
qed

lemma bootstrap_count:
  "bootstrap dt di c sp = (di1, c1, sp1) \<Longrightarrow>
   curFrag c1 = curFrag c \<and> progressChan c1 = progressChan c"
proof (induction dt di c sp rule: bootstrap.induct)
  case (1 dt di c sp)
  show ?case
  proof (cases "GetActiveJobCount di dt < Jobs di")
    case False
    with "1.prems" show ?thesis by (simp add: bootstrap.simps[of dt di c sp])
  next
    case True
    from "1.prems"(1) True
    have "bootstrap dt (IncrementJobs dt di) ((send c)\<lparr>jobNum := jobNum c + 1\<rparr>)
            (sp @ [dt @ Itoa (jobNum c)]) = (di1, c1, sp1)"
      by (simp add: bootstrap.simps[of dt di c sp])
    from "1.IH"[OF True this] show ?thesis by simp
  qed
qed

lemma main_loop_count:
  "main_loop P dt es di c = (st, di1, c1) \<Longrightarrow>
   curFrag c1 - int (length (progressChan c1)) = curFrag c - int (length (progressChan c))"
proof (induction es arbitrary: di c)
  case Nil
  then show ?case by simp
next
  case (Cons e es)
  show ?case
  proof (cases "main_iter P dt (received e) (hour_passed e) (others e di) c")
    case None
    with Cons.prems show ?thesis by simp
  next
    case (Some r)
    obtain brk di2 c2 where r: "r = (brk, di2, c2)" by (metis prod_cases3)
    with Some have m: "main_iter P dt (received e) (hour_passed e) (others e di) c =
        Some (brk, di2, c2)"
      by simp
    show ?thesis
    proof (cases brk)
      case True
      with Cons.prems m main_iter_count[OF m] show ?thesis by simp
    next
      case False
      with Cons.prems m have "main_loop P dt es di2 c2 = (st, di1, c1)" by simp
      from Cons.IH[OF this] main_iter_count[OF m] show ?thesis by simp
    qed
  qed
qed

lemma DownloadStream_count:
  "curFrag (r_coord (DownloadStream P dt True ws fs es di)) =
     int (length (progressChan (r_coord (DownloadStream P dt True ws fs es di)))) \<and>
   (status (DownloadStream P dt True ws fs es di) = Exited
      \<longrightarrow> done_sent (DownloadStream P dt True ws fs es di) = 1)"
proof -
  obtain di1 c1 sp where b: "bootstrap dt di (new_coord ws fs) [] = (di1, c1, sp)"
    by (metis prod_cases3)
  obtain st di2 c2 where m: "main_loop P dt es di1 c1 = (st, di2, c2)"
    by (metis prod_cases3)
  from bootstrap_count[OF b] have "curFrag c1 = 0" "progressChan c1 = []"
    by (simp_all add: new_coord_def)
  with main_loop_count[OF m] have "curFrag c2 = int (length (progressChan c2))" by simp
  with b m show ?thesis by (simp add: DownloadStream_def cleanup_def)
qed

text \<open>
  C3 (as amended). A Worker that takes a request whose \<open>max_seq\<close> is known (above -1),
  while the stream is not live and the track is neither stopping nor finished, and whose
  \<open>cur_seq\<close> is at least \<open>max_seq\<close>, marks the track finished and leaves its loop without
  fetching that sequence. A Coordinator that starts an iteration with the track finished
  and no active job closes the request channel and leaves its main loop in that
  iteration without writing and without sending a request. When \<open>DownloadStream\<close> has
  left its loop it has sent one value on the done channel, and \<open>cur_frag\<close> is the number of
  fragments written, one progress message each; that number need not be \<open>K + 1\<close>.
\<close>

theorem C3_end_of_stream:
  "(\<not> IsStopping (d_di d) \<and> \<not> IsFinished (d_di d) dataType \<and>
    MaxSequence (d_seqInfo d) > - 1 \<and> \<not> IsLive (d_di d) \<and>
    CurSequence (d_seqInfo d) \<ge> MaxSequence (d_seqInfo d)
    \<longrightarrow> DownloadFrags_body h dataType state d = Break (SetFinished dataType (d_di d)) \<and>
        IsFinished (SetFinished dataType (d_di d)) dataType) \<and>
   (IsFinished di dataType \<and> GetActiveJobCount di dataType \<le> 0
    \<longrightarrow> (\<exists>c1. main_iter P dataType frs hour di c = Some (True, di, c1) \<and> closed c1 \<and>
           curFrag c1 = curFrag c \<and> outf c1 = outf c \<and> progressChan c1 = progressChan c \<and>
           seqChan c1 = seqChan c)) \<and>
   curFrag (r_coord (DownloadStream P dataType True ws fs es di0)) =
     int (length (progressChan (r_coord (DownloadStream P dataType True ws fs es di0)))) \<and>
   (status (DownloadStream P dataType True ws fs es di0) = Exited
    \<longrightarrow> done_sent (DownloadStream P dataType True ws fs es di0) = 1)"
  using body_finishes[of d dataType h state] main_iter_exit[of di dataType P frs hour c]
    DownloadStream_count[of P dataType ws fs es di0]
  by blast

theorem C3_end_of_stream_witness:
  "\<not> IsStopping di_1 \<and> \<not> IsFinished di_1 DtypeVideo \<and> \<not> IsLive di_1 \<and>
   DownloadFrags_body hooks0 DtypeVideo state_a (deliveries_K1 ! 1) =
     Break (SetFinished DtypeVideo di_1) \<and>
   IsFinished di_2 DtypeVideo \<and> GetActiveJobCount di_2 DtypeVideo \<le> 0 \<and>
   (\<exists>c1. main_iter params0 DtypeVideo [] False di_2 c_1 = Some (True, di_2, c1) \<and> closed c1 \<and>
      curFrag c1 = curFrag c_1) \<and>
   status (DownloadStream params0 DtypeVideo True [] (\<lambda>n. None) es_K1 di_a) = Exited \<and>
   done_sent (DownloadStream params0 DtypeVideo True [] (\<lambda>n. None) es_K1 di_a) = 1"
proof -
  have d: "d_di (deliveries_K1 ! 1) = di_1"
    "d_seqInfo (deliveries_K1 ! 1) = \<lparr>CurSequence = 1, MaxSequence = 1\<rparr>"
    by (simp_all add: deliveries_K1_def)
  have e: "status (DownloadStream params0 DtypeVideo True [] (\<lambda>n. None) es_K1 di_a) = Exited"
    by (simp add: run_K1)
  from C3_end_of_stream[of "deliveries_K1 ! 1" DtypeVideo hooks0 state_a di_2 params0 "[]" False
         c_1 "[]" "\<lambda>n. None" es_K1 di_a]
       d e di_1_fields di_2_fields
  show ?thesis by auto
qed

text \<open>
  C3 as the specification states it does not hold. The stream has ended, its server has the sequences 0 and 1
  and advertises the head 1. One Worker fetches sequence 0; the Coordinator writes it and
  sends the request for sequence 1 with \<open>max_seq\<close> = 1; the Worker takes it, finds
  \<open>cur_seq \<ge> max_seq\<close>, marks the track finished and leaves without fetching sequence 1;
  the Coordinator leaves its loop with \<open>cur_frag\<close> = 1, not 2.
\<close>

theorem C3_last_sequence_counterexample:
  "\<not> Live di_a \<and> XHeadSeqNum frag_a = 1 \<and>
   DownloadFrags hooks0 DtypeVideo ''video1'' di_1 deliveries_K1 di_1 =
     (di_2, [frag_a], [Get url_a 0 (Some ''a.example'')]) \<and>
   map d_seqInfo deliveries_K1 =
     seqChan (r_coord (DownloadStream params0 DtypeVideo True [] (\<lambda>n. None) es_K1 di_a)) \<and>
   concat (map received es_K1) = [frag_a] \<and>
   r_di (DownloadStream params0 DtypeVideo True [] (\<lambda>n. None) es_K1 di_a) = di_2 \<and>
   status (DownloadStream params0 DtypeVideo True [] (\<lambda>n. None) es_K1 di_a) = Exited \<and>
   curFrag (r_coord (DownloadStream params0 DtypeVideo True [] (\<lambda>n. None) es_K1 di_a)) = 1 \<and>
   curFrag (r_coord (DownloadStream params0 DtypeVideo True [] (\<lambda>n. None) es_K1 di_a)) \<noteq> 1 + 1"
proof -
  have 1: "\<not> Live di_a \<and> XHeadSeqNum frag_a = 1" by (simp add: di_a_eq frag_a_def)
  have 2: "map d_seqInfo deliveries_K1 =
     seqChan (r_coord (DownloadStream params0 DtypeVideo True [] (\<lambda>n. None) es_K1 di_a))"
    by (simp add: run_K1 c_1_def deliveries_K1_def)
  have 3: "concat (map received es_K1) = [frag_a]" by (simp add: es_K1_def)
  have 4: "r_di (DownloadStream params0 DtypeVideo True [] (\<lambda>n. None) es_K1 di_a) = di_2 \<and>
     status (DownloadStream params0 DtypeVideo True [] (\<lambda>n. None) es_K1 di_a) = Exited \<and>
     curFrag (r_coord (DownloadStream params0 DtypeVideo True [] (\<lambda>n. None) es_K1 di_a)) = 1"
    by (simp add: run_K1 c_1_def)
  from 4 have 5:
    "curFrag (r_coord (DownloadStream params0 DtypeVideo True [] (\<lambda>n. None) es_K1 di_a))
       \<noteq> 1 + 1"
    by simp
  from 1 2 3 4 5 worker_K1 show ?thesis by blast
qed

subsection \<open>Stall recovery\<close>

lemma redispatch_facts:
  "redispatch n c = (send ^^ nat (n - activeDownloads c)) c \<and>
   seqChan (redispatch n c) =
     seqChan c @ map (\<lambda>k. \<lparr>CurSequence = curSeq c + int k, MaxSequence = maxSeqs c\<rparr>)
                  [0..<nat (n - activeDownloads c)] \<and>
   activeDownloads (redispatch n c) = max (activeDownloads c) n"
  by (simp add: redispatch_funpow funpow_send_seqChan)

lemma main_iter_idle:
  assumes "\<not> IsStopping di" and "\<not> IsFinished di dt \<or> GetActiveJobCount di dt > 0"
  shows "main_iter P dt [] hour di c =
     Some (False, di,
           if activeDownloads c \<le> 0 then redispatch (GetActiveJobCount di dt) c else c)"
  using assms by (auto simp: main_iter_def getData_def Let_def)

lemma write_loop_waits:
  "list_all (not_next c) (dataToWrite c) \<Longrightarrow> write_loop R ff dt i c = Some c"
proof (induction "length (dataToWrite c) - i" arbitrary: i)
  case 0
  then show ?case by (simp add: write_loop.simps[of R ff dt i c])
next
  case (Suc n)
  then have i: "i < length (dataToWrite c)" by simp
  with Suc.prems have "Seq (dataToWrite c ! i) \<noteq> curFrag c"
    by (simp add: list_all_length not_next_def)
  moreover from Suc have "write_loop R ff dt (i + 1) c = Some c" by simp
  ultimately show ?case by (simp add: write_loop.simps[of R ff dt i c])
qed

lemma outstanding_send: "outstanding (send c) = outstanding c + 1"
  by (simp add: outstanding_def)

lemma outstanding_funpow: "outstanding ((send ^^ n) c) = outstanding c + int n"
  by (simp add: outstanding_def funpow_send_seqChan)

lemma receive_outstanding:
  "activeDownloads c = outstanding c \<Longrightarrow>
   activeDownloads (receive jobs downloading stopping c data) =
     outstanding (receive jobs downloading stopping c data)"
proof (cases "\<not> downloading \<or> stopping")
  case True
  assume "activeDownloads c = outstanding c"
  with True show ?thesis by (auto simp: receive_def Let_def outstanding_def)
next
  case False
  assume a: "activeDownloads c = outstanding c"
  let ?c1 = "c\<lparr>dataToWrite := dataToWrite c @ [data],
               activeDownloads := activeDownloads c - 1\<rparr>"
  let ?c2 = "if XHeadSeqNum data > maxSeqs ?c1 then ?c1\<lparr>maxSeqs := XHeadSeqNum data\<rparr> else ?c1"
  have o: "activeDownloads ?c2 = outstanding ?c2" using a by (simp add: outstanding_def)
  from False have r: "receive jobs downloading stopping c data =
      (if maxSeqs ?c2 > 0 then dispatch jobs ?c2 else send ?c2)"
    by (simp add: receive_def Let_def)
  show ?thesis
  proof (cases "maxSeqs ?c2 > 0")
    case True
    with r have "receive jobs downloading stopping c data =
        (send ^^ nat (min (maxSeqs ?c2 + 2 - curSeq ?c2) (jobs - activeDownloads ?c2))) ?c2"
      by (simp only: dispatch_funpow if_True)
    with o show ?thesis by (simp only: funpow_send_fields outstanding_funpow)
  next
    case False
    with r have "receive jobs downloading stopping c data = send ?c2" by (simp only: if_False)
    with o show ?thesis by (simp only: send_fields outstanding_send)
  qed
qed

lemma getData_outstanding:
  "activeDownloads c = outstanding c \<Longrightarrow>
   activeDownloads (getData jobs downloading stopping frs c) =
     outstanding (getData jobs downloading stopping frs c)"
  unfolding getData_def
  by (induction frs arbitrary: c) (simp_all add: receive_outstanding)

lemma write_loop_outstanding:
  "write_loop R ff dt i c = Some c1 \<Longrightarrow> outstanding c1 = outstanding c"
proof (induction R ff dt i c rule: write_loop.induct)
  case (1 R ff dt i c)
  show ?case
  proof (cases "i < length (dataToWrite c) \<and> tries c > 0")
    case False
    with "1.prems" show ?thesis by (auto simp: write_loop.simps[of R ff dt i c])
  next
    case True
    note t = this
    show ?thesis
    proof (cases "Seq (dataToWrite c ! i) \<noteq> curFrag c")
      case True
      with t "1.prems" have "write_loop R ff dt (i + 1) c = Some c1"
        by (simp add: write_loop.simps[of R ff dt i c])
      from "1.IH"(1)[OF t True this] show ?thesis .
    next
      case False
      note f = this
      show ?thesis
      proof (cases "load_data ff (files c) (dataToWrite c ! i)")
        case LoadErr
        with t f "1.prems" have "write_loop R ff dt i (c\<lparr>tries := tries c - 1\<rparr>) = Some c1"
          by (simp add: write_loop.simps[of R ff dt i c])
        from "1.IH"(2)[OF t f LoadErr this] show ?thesis by (simp add: outstanding_def)
      next
        case LoadPanic
        with t f "1.prems" show ?thesis by (simp add: write_loop.simps[of R ff dt i c])
      next
        case (Loaded d)
        obtain err bw fl ws rest where
          w: "write_frag R d (writes c) (outf c) = (err, bw, fl, ws, rest)"
          by (metis prod_cases5)
        show ?thesis
        proof (cases err)
          case True
          with t f Loaded w "1.prems"
          have "write_loop R ff dt i
                  (c\<lparr>outf := fl, writes := ws,
                     dataToWrite := (dataToWrite c)[i := (dataToWrite c ! i)\<lparr>Data := Some rest\<rparr>],
                     tries := tries c - 1\<rparr>) = Some c1"
            by (simp add: write_loop.simps[of R ff dt i c])
          from "1.IH"(3)[OF t f Loaded w[symmetric] refl refl refl _ this] True
          show ?thesis by (simp add: outstanding_def)
        next
          case False
          with t f Loaded w "1.prems"
          have "write_loop R ff dt 0
                  (written ff dt i ((dataToWrite c ! i)\<lparr>Data := Some rest\<rparr>) bw
                     (c\<lparr>outf := fl, writes := ws\<rparr>)) = Some c1"
            by (simp add: write_loop.simps[of R ff dt i c])
          from "1.IH"(4)[OF t f Loaded w[symmetric] refl refl refl _ this] False
          have "outstanding c1 =
              outstanding (written ff dt i ((dataToWrite c ! i)\<lparr>Data := Some rest\<rparr>) bw
                     (c\<lparr>outf := fl, writes := ws\<rparr>))"
            by simp
          also have "\<dots> = outstanding c"
            using t by (auto simp: outstanding_def written_def Let_def split: option.splits)
          finally show ?thesis .
        qed
      qed
    qed
  qed
qed

lemma main_iter_outstanding:
  assumes "main_iter P dt frs hour di c = Some (brk, di1, c1)"
    and "activeDownloads c = outstanding c"
  shows "activeDownloads c1 = outstanding c1"
proof -
  let ?downloading = "\<not> IsFinished di dt \<or> GetActiveJobCount di dt > 0"
  let ?stopping = "IsStopping di"
  let ?c1 = "if (?stopping \<or> \<not> ?downloading) \<and> \<not> closed c then c\<lparr>closed := True\<rparr> else c"
  let ?c2 = "getData (Jobs di) ?downloading ?stopping frs ?c1"
  have "activeDownloads ?c1 = outstanding ?c1" using assms(2) by (simp add: outstanding_def)
  from getData_outstanding[OF this] have a2: "activeDownloads ?c2 = outstanding ?c2" .
  from assms(1) have "c1 = ?c2 \<or> c1 = redispatch (GetActiveJobCount di dt) ?c2 \<or>
      write_loop (RemoveSidx P) (FragFiles di) dt 0 ?c2 = Some c1"
    by (auto simp: main_iter_def Let_def split: if_splits option.splits)
  then show ?thesis
  proof (elim disjE)
    assume "c1 = ?c2"
    with a2 show ?thesis by simp
  next
    assume "c1 = redispatch (GetActiveJobCount di dt) ?c2"
    with a2 show ?thesis by (simp only: redispatch_funpow funpow_send_fields outstanding_funpow)
  next
    assume w: "write_loop (RemoveSidx P) (FragFiles di) dt 0 ?c2 = Some c1"
    from write_loop_frame[OF w] write_loop_outstanding[OF w] a2 show ?thesis by simp
  qed
qed

lemma bootstrap_outstanding:
  "bootstrap dt di c sp = (di1, c1, sp1) \<Longrightarrow> activeDownloads c = outstanding c \<Longrightarrow>
   activeDownloads c1 = outstanding c1"
proof (induction dt di c sp rule: bootstrap.induct)
  case (1 dt di c sp)
  show ?case
  proof (cases "GetActiveJobCount di dt < Jobs di")
    case False
    with "1.prems" show ?thesis by (simp add: bootstrap.simps[of dt di c sp])
  next
    case True
    from "1.prems"(1) True
    have r: "bootstrap dt (IncrementJobs dt di) ((send c)\<lparr>jobNum := jobNum c + 1\<rparr>)
            (sp @ [dt @ Itoa (jobNum c)]) = (di1, c1, sp1)"
      by (simp add: bootstrap.simps[of dt di c sp])
    have "activeDownloads ((send c)\<lparr>jobNum := jobNum c + 1\<rparr>) =
          outstanding ((send c)\<lparr>jobNum := jobNum c + 1\<rparr>)"
      using "1.prems"(2) by (simp add: outstanding_def)
    from "1.IH"[OF True r this] show ?thesis .
  qed
qed

lemma main_loop_outstanding:
  "main_loop P dt es di c = (st, di1, c1) \<Longrightarrow> activeDownloads c = outstanding c \<Longrightarrow>
   activeDownloads c1 = outstanding c1"
proof (induction es arbitrary: di c)
  case Nil
  then show ?case by simp
next
  case (Cons e es)
  show ?case
  proof (cases "main_iter P dt (received e) (hour_passed e) (others e di) c")
    case None
    with Cons.prems show ?thesis by simp
  next
    case (Some r)
    obtain brk di2 c2 where r: "r = (brk, di2, c2)" by (metis prod_cases3)
    with Some have m: "main_iter P dt (received e) (hour_passed e) (others e di) c =
        Some (brk, di2, c2)"
      by simp
    from main_iter_outstanding[OF m Cons.prems(2)] have o: "activeDownloads c2 = outstanding c2" .
    show ?thesis
    proof (cases brk)
      case True
      with Cons.prems m o show ?thesis by simp
    next
      case False
      with Cons.prems m have "main_loop P dt es di2 c2 = (st, di1, c1)" by simp
      from Cons.IH[OF this o] show ?thesis .
    qed
  qed
qed

lemma DownloadStream_outstanding:
  "activeDownloads (r_coord (DownloadStream P dt True ws fs es di)) =
     outstanding (r_coord (DownloadStream P dt True ws fs es di))"
proof -
  obtain di1 c1 sp where b: "bootstrap dt di (new_coord ws fs) [] = (di1, c1, sp)"
    by (metis prod_cases3)
  obtain st di2 c2 where m: "main_loop P dt es di1 c1 = (st, di2, c2)"
    by (metis prod_cases3)
  have "activeDownloads (new_coord ws fs) = outstanding (new_coord ws fs)"
    by (simp add: new_coord_def outstanding_def)
  from main_loop_outstanding[OF m bootstrap_outstanding[OF b this]]
  have "activeDownloads c2 = outstanding c2" .
  with b m show ?thesis by (simp add: DownloadStream_def cleanup_def outstanding_def)
qed



lemma worker_abandons:
  "fst (snd (DownloadFrags hooks0 DtypeVideo ''video1'' di_1 [delivery_403] di_1)) = []"
proof -
  let ?st = "(initial_state DtypeVideo ''video1'' di_1)\<lparr>SeqNum := 0, MaxSeq := - 1\<rparr>"
  obtain st fr tr where
    d: "downloadFragment hooks0 (\<lambda>k. world_status di_1 403) ?st = (st, fr, tr)"
    by (metis prod_cases3)
  have "failed_fetch (world_status di_1 403)"
    by (simp add: failed_fetch_def world_status_def)
  with loop_all_failed[of hooks0 "\<lambda>k. world_status di_1 403" 0 _ "[]" st fr tr] d
  have "fr = None" by (simp add: downloadFragment_def)
  with d show ?thesis
    by (simp add: DownloadFrags_def delivery_403_def DownloadFrags_body_def di_1_fields Let_def)
qed

lemma coordinator_waits:
  "main_loop params0 DtypeVideo (replicate n idle) di_1 c_boot = (Running, di_1, c_boot)"
proof (induction n)
  case 0
  then show ?case by simp
next
  case (Suc n)
  have "main_iter params0 DtypeVideo [] False di_1 c_boot = Some (False, di_1, c_boot)"
    using main_iter_idle[of di_1 DtypeVideo params0 False c_boot]
    by (simp add: di_1_fields c_boot_def)
  with Suc show ?case by (simp add: idle_def)
qed


subsection \<open>What the write loop puts into the output file\<close>

lemma write_rest_ok:
  "write_rest d bw [] \<lparr>content = cs, pos = length cs\<rparr> =
     (False, bw + length d, \<lparr>content = cs @ d, pos = length cs + length d\<rparr>, [], [])"
proof (induction "length d" arbitrary: d bw cs rule: less_induct)
  case less
  show ?case
  proof (cases "d = []")
    case True
    then show ?thesis by (simp add: write_rest.simps)
  next
    case False
    let ?n = "min (length d) BufferSize"
    from False have n: "0 < ?n" by (simp add: BufferSize_def)
    then have l: "length (drop ?n d) < length d" using False by simp
    have w: "f_Write WOk (take ?n d) \<lparr>content = cs, pos = length cs\<rparr> =
        (?n, False, \<lparr>content = cs @ take ?n d, pos = length (cs @ take ?n d)\<rparr>)"
      using n by (auto simp: f_Write_def pwrite_def)
    from less[OF l, of "bw + ?n" "cs @ take ?n d"]
    have "write_rest (drop ?n d) (bw + ?n) [] \<lparr>content = cs @ take ?n d,
            pos = length (cs @ take ?n d)\<rparr> =
          (False, bw + ?n + length (drop ?n d),
           \<lparr>content = (cs @ take ?n d) @ drop ?n d,
            pos = length (cs @ take ?n d) + length (drop ?n d)\<rparr>, [], [])" .
    moreover have "(cs @ take ?n d) @ drop ?n d = cs @ d" by simp
    moreover have "length (cs @ take ?n d) + length (drop ?n d) = length cs + length d"
      by simp
    moreover have "bw + ?n + length (drop ?n d) = bw + length d" by simp
    ultimately have r: "write_rest (drop ?n d) (bw + ?n) [] \<lparr>content = cs @ take ?n d,
            pos = length (cs @ take ?n d)\<rparr> =
          (False, bw + length d, \<lparr>content = cs @ d, pos = length cs + length d\<rparr>, [], [])"
      by simp
    show ?thesis
      by (subst write_rest.simps) (simp only: False w r next_wres.simps fst_conv snd_conv
            if_False case_prod_conv)
  qed
qed

lemma write_frag_ok:
  "write_frag R d [] \<lparr>content = cs, pos = length cs\<rparr> =
     (False,
      length (R (take BufferSize d @ zeros (BufferSize - length d))) + length (drop BufferSize d),
      \<lparr>content = cs @ R (take BufferSize d @ zeros (BufferSize - length d)) @ drop BufferSize d,
       pos = length cs + length (R (take BufferSize d @ zeros (BufferSize - length d)))
               + length (drop BufferSize d)\<rparr>,
      [], [])"
proof -
  let ?n = "min (length d) BufferSize"
  let ?buf = "take BufferSize d @ zeros (BufferSize - length d)"
  have b: "take ?n d @ replicate (BufferSize - ?n) (CHR 0x00) = ?buf"
    by (simp add: zeros_def min_def)
  have dr: "drop ?n d = drop BufferSize d" by (simp add: min_def)
  have w: "f_Write WOk (R ?buf) \<lparr>content = cs, pos = length cs\<rparr> =
      (length (R ?buf), False, \<lparr>content = cs @ R ?buf, pos = length (cs @ R ?buf)\<rparr>)"
    by (auto simp: f_Write_def pwrite_def)
  have r: "write_rest (drop BufferSize d) (length (R ?buf)) []
             \<lparr>content = cs @ R ?buf, pos = length (cs @ R ?buf)\<rparr> =
      (False, length (R ?buf) + length (drop BufferSize d),
       \<lparr>content = (cs @ R ?buf) @ drop BufferSize d,
        pos = length (cs @ R ?buf) + length (drop BufferSize d)\<rparr>, [], [])"
    by (rule write_rest_ok)
  show ?thesis
    unfolding write_frag_def Let_def b dr
    by (simp only: w r next_wres.simps fst_conv snd_conv if_False case_prod_conv)
       simp
qed


lemma di_5_eq:
  "di_5 = \<lparr>Stopping = False, InProgress = False, Live = False, Unavailable = False,
      GVideoDDL = False, FragFiles = False, Jobs = 5, TargetDuration = 5,
      MDLInfo = (\<lambda>t. emptyMediaDLInfo)(DtypeVideo :=
        emptyMediaDLInfo\<lparr>URLHost := ''a.example'', DownloadURL := url_a\<rparr>)\<rparr>"
  by (simp add: di_5_def di_a_eq)

lemma length_zeros [simp]: "length (zeros n) = n"
  by (simp add: zeros_def)

lemma bootstrap_funpow:
  "bootstrap dt di c sp =
     ((IncrementJobs dt ^^ nat (Jobs di - GetActiveJobCount di dt)) di,
      ((\<lambda>c. (send c)\<lparr>jobNum := jobNum c + 1\<rparr>) ^^ nat (Jobs di - GetActiveJobCount di dt)) c,
      sp @ map (\<lambda>k. dt @ Itoa (jobNum c + int k)) [0..<nat (Jobs di - GetActiveJobCount di dt)])"
proof (induction dt di c sp rule: bootstrap.induct)
  case (1 dt di c sp)
  show ?case
  proof (cases "GetActiveJobCount di dt < Jobs di")
    case False
    then show ?thesis by (simp add: bootstrap.simps[of dt di c sp])
  next
    case True
    let ?f = "\<lambda>c. (send c)\<lparr>jobNum := jobNum c + 1\<rparr>"
    let ?di = "IncrementJobs dt di"
    let ?c = "(send c)\<lparr>jobNum := jobNum c + 1\<rparr>"
    from True obtain m where m: "nat (Jobs di - GetActiveJobCount di dt) = Suc m"
      by (cases "nat (Jobs di - GetActiveJobCount di dt)") auto
    have j: "Jobs ?di = Jobs di" "GetActiveJobCount ?di dt = GetActiveJobCount di dt + 1"
      by (simp_all add: IncrementJobs_def GetActiveJobCount_def)
    with m have m1: "nat (Jobs ?di - GetActiveJobCount ?di dt) = m" by simp
    have l: "map (\<lambda>k. dt @ Itoa (jobNum c + int k)) [0..<Suc m] =
        (dt @ Itoa (jobNum c)) # map (\<lambda>k. dt @ Itoa (jobNum ?c + int k)) [0..<m]"
      by (simp add: upt_conv_Cons map_Suc_upt[symmetric] del: upt_Suc) (simp add: add.assoc)
    have e1: "(IncrementJobs dt ^^ Suc m) di = (IncrementJobs dt ^^ m) ?di"
      by (simp only: funpow_Suc_right o_apply)
    have e2: "(?f ^^ Suc m) c = (?f ^^ m) ?c"
      by (simp only: funpow_Suc_right o_apply)
    have "bootstrap dt di c sp = bootstrap dt ?di ?c (sp @ [dt @ Itoa (jobNum c)])"
      using True by (simp add: bootstrap.simps[of dt di c sp])
    also have "\<dots> = ((IncrementJobs dt ^^ m) ?di, (?f ^^ m) ?c,
         (sp @ [dt @ Itoa (jobNum c)]) @ map (\<lambda>k. dt @ Itoa (jobNum ?c + int k)) [0..<m])"
      using "1.IH"[OF True] by (simp only: m1)
    also have "\<dots> = ((IncrementJobs dt ^^ Suc m) di, (?f ^^ Suc m) c,
         sp @ map (\<lambda>k. dt @ Itoa (jobNum c + int k)) [0..<Suc m])"
      by (simp only: e1 e2 l append_assoc append_Cons append_Nil)
    finally show ?thesis by (simp only: m)
  qed
qed

lemma di_5b_fields:
  "Jobs di_5b = 5" "GetActiveJobCount di_5b DtypeVideo = 5" "\<not> IsStopping di_5b"
  "\<not> IsFinished di_5b DtypeVideo" "\<not> FragFiles di_5b" "\<not> IsUnavailable di_5b"
  by (simp_all add: di_5b_def di_5_eq IncrementJobs_def GetActiveJobCount_def IsStopping_def
       IsFinished_def IsUnavailable_def emptyMediaDLInfo_def eval_nat_numeral)

lemma bootstrap_5:
  "bootstrap DtypeVideo di_5 (new_coord [] (\<lambda>n. None)) [] =
     (di_5b, c_5b, [''video1'', ''video2'', ''video3'', ''video4'', ''video5''])"
proof -
  have n: "nat (Jobs di_5 - GetActiveJobCount di_5 DtypeVideo) = 5"
    by (simp add: di_5_eq GetActiveJobCount_def emptyMediaDLInfo_def)
  have c: "((\<lambda>c. (send c)\<lparr>jobNum := jobNum c + 1\<rparr>) ^^ 5) (new_coord [] (\<lambda>n. None)) = c_5b"
    by (simp add: eval_nat_numeral send_def new_coord_def c_5b_def)
  have s: "map (\<lambda>k. DtypeVideo @ Itoa (jobNum (new_coord [] (\<lambda>n. None)) + int k)) [0..<5] =
      [''video1'', ''video2'', ''video3'', ''video4'', ''video5'']"
    by (simp add: new_coord_def DtypeVideo_def Itoa_digit digit_char_def upt_conv_Cons)
  show ?thesis by (simp add: bootstrap_funpow n c s di_5b_def)
qed

lemma getData_5: "getData 5 True False frags_abcde c_5b = c_5d"
  by (simp add: getData_def receive_eq frags_abcde_def c_5b_def c_5d_def send_def Let_def)

lemma write_loop_done: "dataToWrite c = [] \<Longrightarrow> write_loop R ff dt i c = Some c"
  by (simp add: write_loop.simps[of R ff dt i c])

lemma write_loop_head:
  assumes "dataToWrite c \<noteq> []" and "Seq (hd (dataToWrite c)) = curFrag c" and "tries c > 0"
    and "Data (hd (dataToWrite c)) \<noteq> None" and "writes c = []"
    and "pos (outf c) = length (content (outf c))"
  shows "write_loop R False dt 0 c =
     write_loop R False dt 0
       (c\<lparr>curFrag := curFrag c + 1,
          progressChan := progressChan c @
            [\<lparr>P_DataType = dt,
              ByteCount = int (length (R (take BufferSize (the (Data (hd (dataToWrite c)))) @
                                 zeros (BufferSize - length (the (Data (hd (dataToWrite c)))))))
                               + length (drop BufferSize (the (Data (hd (dataToWrite c)))))),
              P_MaxSeq = maxSeqs c\<rparr>],
          outf := \<lparr>content = content (outf c) @
                      R (take BufferSize (the (Data (hd (dataToWrite c)))) @
                         zeros (BufferSize - length (the (Data (hd (dataToWrite c)))))) @
                      drop BufferSize (the (Data (hd (dataToWrite c)))),
                    pos = length (content (outf c)) +
                      length (R (take BufferSize (the (Data (hd (dataToWrite c)))) @
                         zeros (BufferSize - length (the (Data (hd (dataToWrite c))))))) +
                      length (drop BufferSize (the (Data (hd (dataToWrite c)))))\<rparr>,
          dataToWrite := tl (dataToWrite c),
          tries := 10\<rparr>)"
proof -
  obtain data rest where dr: "dataToWrite c = data # rest"
    using assms(1) by (cases "dataToWrite c") auto
  from assms(4) dr obtain d where d: "Data data = Some d" by auto
  have o: "outf c = \<lparr>content = content (outf c), pos = length (content (outf c))\<rparr>"
    using assms(6) by simp
  have w: "write_frag R d [] (outf c) =
     (False,
      length (R (take BufferSize d @ zeros (BufferSize - length d))) + length (drop BufferSize d),
      \<lparr>content = content (outf c) @ R (take BufferSize d @ zeros (BufferSize - length d)) @
                  drop BufferSize d,
       pos = length (content (outf c)) +
               length (R (take BufferSize d @ zeros (BufferSize - length d)))
               + length (drop BufferSize d)\<rparr>,
      [], [])"
    using write_frag_ok[of R d "content (outf c)"] o by simp
  have l: "load_data False (files c) data = Loaded d"
    by (simp add: load_data_def d)
  have "write_loop R False dt 0 c =
      write_loop R False dt 0
        (written False dt 0 (data\<lparr>Data := Some []\<rparr>)
           (length (R (take BufferSize d @ zeros (BufferSize - length d))) +
            length (drop BufferSize d))
           (c\<lparr>outf := \<lparr>content = content (outf c) @
                        R (take BufferSize d @ zeros (BufferSize - length d)) @ drop BufferSize d,
                      pos = length (content (outf c)) +
                        length (R (take BufferSize d @ zeros (BufferSize - length d))) +
                        length (drop BufferSize d)\<rparr>,
               writes := []\<rparr>))"
    using assms(2,3) dr d
    by (subst write_loop.simps) (simp add: assms(5) l w)
  also have "written False dt 0 (data\<lparr>Data := Some []\<rparr>)
           (length (R (take BufferSize d @ zeros (BufferSize - length d))) +
            length (drop BufferSize d))
           (c\<lparr>outf := \<lparr>content = content (outf c) @
                        R (take BufferSize d @ zeros (BufferSize - length d)) @ drop BufferSize d,
                      pos = length (content (outf c)) +
                        length (R (take BufferSize d @ zeros (BufferSize - length d))) +
                        length (drop BufferSize d)\<rparr>,
               writes := []\<rparr>) =
        c\<lparr>curFrag := curFrag c + 1,
          progressChan := progressChan c @
            [\<lparr>P_DataType = dt,
              ByteCount = int (length (R (take BufferSize d @ zeros (BufferSize - length d)))
                               + length (drop BufferSize d)),
              P_MaxSeq = maxSeqs c\<rparr>],
          outf := \<lparr>content = content (outf c) @
                      R (take BufferSize d @ zeros (BufferSize - length d)) @ drop BufferSize d,
                    pos = length (content (outf c)) +
                      length (R (take BufferSize d @ zeros (BufferSize - length d))) +
                      length (drop BufferSize d)\<rparr>,
          dataToWrite := tl (dataToWrite c),
          tries := 10\<rparr>"
    using assms(5) dr by (cases c) (simp add: written_def Let_def)
  finally show ?thesis using dr d by simp
qed

lemma write_loop_in_order:
  "dataToWrite c = frs \<Longrightarrow> map Seq frs = [curFrag c .. curFrag c + int (length frs) - 1] \<Longrightarrow>
   list_all (\<lambda>fr. Data fr \<noteq> None) frs \<Longrightarrow> tries c > 0 \<Longrightarrow> writes c = [] \<Longrightarrow>
   pos (outf c) = length (content (outf c)) \<Longrightarrow>
   \<exists>c1. write_loop R False dt 0 c = Some c1 \<and>
        curFrag c1 = curFrag c + int (length frs) \<and>
        content (outf c1) =
          content (outf c) @ concat (map (\<lambda>fr. as_written R (the (Data fr))) frs) \<and>
        pos (outf c1) = length (content (outf c1)) \<and>
        progressChan c1 = progressChan c @
          map (\<lambda>fr. \<lparr>P_DataType = dt, ByteCount = int (length (as_written R (the (Data fr)))),
                      P_MaxSeq = maxSeqs c\<rparr>) frs \<and>
        dataToWrite c1 = [] \<and> tries c1 > 0"
proof (induction frs arbitrary: c)
  case Nil
  then show ?case by (simp add: write_loop_done)
next
  case (Cons fr frs)
  let ?d = "the (Data fr)"
  let ?c = "c\<lparr>curFrag := curFrag c + 1,
          progressChan := progressChan c @
            [\<lparr>P_DataType = dt, ByteCount = int (length (as_written R ?d)),
              P_MaxSeq = maxSeqs c\<rparr>],
          outf := \<lparr>content = content (outf c) @ as_written R ?d,
                    pos = length (content (outf c) @ as_written R ?d)\<rparr>,
          dataToWrite := frs,
          tries := 10\<rparr>"
  have u: "[curFrag c .. curFrag c + int (length (fr # frs)) - 1] =
      curFrag c # [curFrag c + 1 .. curFrag c + 1 + int (length frs) - 1]"
    using upto_rec1[of "curFrag c" "curFrag c + int (length (fr # frs)) - 1"]
    by (simp add: add.commute add.left_commute)
  from Cons.prems(2) u have s: "Seq fr = curFrag c"
    and m: "map Seq frs = [curFrag ?c .. curFrag ?c + int (length frs) - 1]"
    by simp_all
  from Cons.prems(1,3) have d: "Data (hd (dataToWrite c)) \<noteq> None" by simp
  from Cons.prems(1) s have h: "dataToWrite c \<noteq> []" "Seq (hd (dataToWrite c)) = curFrag c"
    by simp_all
  from write_loop_head[OF h Cons.prems(4) d Cons.prems(5,6), of R dt] Cons.prems(1)
  have w: "write_loop R False dt 0 c = write_loop R False dt 0 ?c"
    by (simp add: as_written_def add.assoc)
  have "\<exists>c1. write_loop R False dt 0 ?c = Some c1 \<and>
        curFrag c1 = curFrag ?c + int (length frs) \<and>
        content (outf c1) =
          content (outf ?c) @ concat (map (\<lambda>fr. as_written R (the (Data fr))) frs) \<and>
        pos (outf c1) = length (content (outf c1)) \<and>
        progressChan c1 = progressChan ?c @
          map (\<lambda>fr. \<lparr>P_DataType = dt, ByteCount = int (length (as_written R (the (Data fr)))),
                      P_MaxSeq = maxSeqs ?c\<rparr>) frs \<and>
        dataToWrite c1 = [] \<and> tries c1 > 0"
    using Cons.prems(3,5) m by (intro Cons.IH) simp_all
  then obtain c1 where c1: "write_loop R False dt 0 ?c = Some c1"
    "curFrag c1 = curFrag ?c + int (length frs)"
    "content (outf c1) =
          content (outf ?c) @ concat (map (\<lambda>fr. as_written R (the (Data fr))) frs)"
    "pos (outf c1) = length (content (outf c1))"
    "progressChan c1 = progressChan ?c @
          map (\<lambda>fr. \<lparr>P_DataType = dt, ByteCount = int (length (as_written R (the (Data fr)))),
                      P_MaxSeq = maxSeqs ?c\<rparr>) frs"
    "dataToWrite c1 = []" "tries c1 > 0"
    by blast
  show ?case
    by (rule exI[of _ c1]) (use w c1 in simp)
qed

lemma as_written_long:
  "BufferSize \<le> length d \<Longrightarrow> as_written R d = R (take BufferSize d) @ drop BufferSize d"
  by (simp add: as_written_def zeros_def)

lemma as_written_short:
  "length d < BufferSize \<Longrightarrow> as_written R d = R (d @ zeros (BufferSize - length d))"
  by (simp add: as_written_def)

lemma as_written_one_byte: "as_written (\<lambda>b. b) [x] = x # zeros 8191"
  by (simp add: as_written_def BufferSize_def)

lemma run_abcde:
  "\<exists>c1. DownloadStream params0 DtypeVideo True [] (\<lambda>n. None) es_abcde di_5 =
          \<lparr>status = Running, r_di = di_5b, r_coord = c1,
           workers = [''video1'', ''video2'', ''video3'', ''video4'', ''video5''],
           done_sent = 0\<rparr> \<and>
        curFrag c1 = 5 \<and>
        content (outf c1) =
          CHR ''a'' # zeros 8191 @ CHR ''b'' # zeros 8191 @ CHR ''c'' # zeros 8191 @
          CHR ''d'' # zeros 8191 @ CHR ''e'' # zeros 8191 \<and>
        progressChan c1 =
          replicate 5 \<lparr>P_DataType = DtypeVideo, ByteCount = 8192, P_MaxSeq = 4\<rparr>"
proof -
  have f: "dataToWrite c_5d = frags_abcde" "curFrag c_5d = 0" "tries c_5d = 10"
    "writes c_5d = []" "outf c_5d = \<lparr>content = [], pos = 0\<rparr>" "progressChan c_5d = []"
    "maxSeqs c_5d = 4" "closed c_5b = False"
    by (simp_all add: c_5d_def c_5b_def)
  have m: "map Seq frags_abcde = [curFrag c_5d .. curFrag c_5d + int (length frags_abcde) - 1]"
    by (simp add: f frags_abcde_def upto_rec1)
  have a: "list_all (\<lambda>fr. Data fr \<noteq> None) frags_abcde" by (simp add: frags_abcde_def)
  from write_loop_in_order[OF f(1) m a, of "\<lambda>b. b" DtypeVideo] f
  obtain c1 where c1: "write_loop (\<lambda>b. b) False DtypeVideo 0 c_5d = Some c1"
    "curFrag c1 = int (length frags_abcde)"
    "content (outf c1) = concat (map (\<lambda>fr. as_written (\<lambda>b. b) (the (Data fr))) frags_abcde)"
    "progressChan c1 =
       map (\<lambda>fr. \<lparr>P_DataType = DtypeVideo,
                   ByteCount = int (length (as_written (\<lambda>b. b) (the (Data fr)))),
                   P_MaxSeq = 4\<rparr>) frags_abcde"
    "tries c1 > 0"
    by auto
  have n: "frags_abcde \<noteq> []" by (simp add: frags_abcde_def)
  have i: "main_iter params0 DtypeVideo frags_abcde False di_5b c_5b = Some (False, di_5b, c1)"
    using c1(1,5) n
    by (simp add: main_iter_def di_5b_fields getData_5 f params0_def Let_def)
  have r: "DownloadStream params0 DtypeVideo True [] (\<lambda>n. None) es_abcde di_5 =
          \<lparr>status = Running, r_di = di_5b, r_coord = c1,
           workers = [''video1'', ''video2'', ''video3'', ''video4'', ''video5''],
           done_sent = 0\<rparr>"
    by (simp add: DownloadStream_def bootstrap_5 es_abcde_def i)
  have v: "curFrag c1 = 5" using c1(2) by (simp add: frags_abcde_def)
  have w: "content (outf c1) =
          CHR ''a'' # zeros 8191 @ CHR ''b'' # zeros 8191 @ CHR ''c'' # zeros 8191 @
          CHR ''d'' # zeros 8191 @ CHR ''e'' # zeros 8191"
    using c1(3) by (simp add: frags_abcde_def as_written_one_byte)
  have p: "progressChan c1 =
          replicate 5 \<lparr>P_DataType = DtypeVideo, ByteCount = 8192, P_MaxSeq = 4\<rparr>"
    using c1(4) by (simp add: frags_abcde_def as_written_one_byte eval_nat_numeral)
  from r v w p show ?thesis by blast
qed

text \<open>
  C1, at the input of the specification's first scenario: the sequences 0 to 4 with the
  one-byte bodies \<open>a\<close> to \<open>e\<close>, \<open>RemoveSidx\<close> the identity, five jobs. After the iteration
  that drains the five fragments \<open>cur_frag\<close> is 5; every fragment has been written as the
  whole buffer of 8192 bytes, its byte followed by 8191 zero bytes, so the file has 40960
  bytes and is not \<open>abcde\<close>, and each of the five progress messages has the byte count
  8192.
\<close>

theorem C1_one_byte_fragments:
  "curFrag (r_coord (DownloadStream params0 DtypeVideo True [] (\<lambda>n. None) es_abcde di_5)) = 5 \<and>
   content (outf (r_coord (DownloadStream params0 DtypeVideo True [] (\<lambda>n. None) es_abcde di_5))) =
     CHR ''a'' # zeros 8191 @ CHR ''b'' # zeros 8191 @ CHR ''c'' # zeros 8191 @
     CHR ''d'' # zeros 8191 @ CHR ''e'' # zeros 8191 \<and>
   length (content (outf (r_coord
     (DownloadStream params0 DtypeVideo True [] (\<lambda>n. None) es_abcde di_5)))) = 40960 \<and>
   content (outf (r_coord (DownloadStream params0 DtypeVideo True [] (\<lambda>n. None) es_abcde di_5)))
     \<noteq> ''abcde'' \<and>
   map ByteCount (progressChan (r_coord
     (DownloadStream params0 DtypeVideo True [] (\<lambda>n. None) es_abcde di_5))) =
     [8192, 8192, 8192, 8192, 8192]"
proof -
  from run_abcde obtain c1 where
    r: "r_coord (DownloadStream params0 DtypeVideo True [] (\<lambda>n. None) es_abcde di_5) = c1"
    and v: "curFrag c1 = 5"
    and w: "content (outf c1) =
          CHR ''a'' # zeros 8191 @ CHR ''b'' # zeros 8191 @ CHR ''c'' # zeros 8191 @
          CHR ''d'' # zeros 8191 @ CHR ''e'' # zeros 8191"
    and p: "progressChan c1 =
          replicate 5 \<lparr>P_DataType = DtypeVideo, ByteCount = 8192, P_MaxSeq = 4\<rparr>"
    by auto
  from w have l: "length (content (outf c1)) = 40960" by simp
  then have n: "content (outf c1) \<noteq> ''abcde''" by auto
  from p have b: "map ByteCount (progressChan c1) = [8192, 8192, 8192, 8192, 8192]"
    by (simp add: eval_nat_numeral)
  from r v w l n b show ?thesis by simp
qed

subsection \<open>A write that fails\<close>

lemma write_frag_failed_first:
  "write_frag R d (WErr k # ws) fl =
     (True, min k (length (R (take BufferSize d @ zeros (BufferSize - length d)))),
      \<lparr>content = pwrite (content fl) (pos fl)
                   (take k (R (take BufferSize d @ zeros (BufferSize - length d)))),
       pos = pos fl + 2 * min k (length (R (take BufferSize d @ zeros (BufferSize - length d))))\<rparr>,
      ws, drop BufferSize d)"
proof -
  let ?n = "min (length d) BufferSize"
  have b: "take ?n d @ replicate (BufferSize - ?n) (CHR 0x00) =
      take BufferSize d @ zeros (BufferSize - length d)"
    by (simp add: zeros_def min_def)
  have dr: "drop ?n d = drop BufferSize d" by (simp add: min_def)
  show ?thesis
    unfolding write_frag_def Let_def b dr
    by (simp add: f_Write_def f_Seek_def Let_def min_def) arith
qed

lemma hello_buf:
  "take BufferSize ''hello'' @ zeros (BufferSize - length ''hello'') = ''hello'' @ zeros 8187"
  by (simp add: BufferSize_def)

lemma c_hello_fields:
  "dataToWrite (c_hello ws) = [frag_hello]" "tries (c_hello ws) = 10" "curFrag (c_hello ws) = 0"
  "files (c_hello ws) = fs_hello" "writes (c_hello ws) = ws"
  "outf (c_hello ws) = \<lparr>content = [], pos = 0\<rparr>" "progressChan (c_hello ws) = []"
  "maxSeqs (c_hello ws) = - 1" "deletingFrags (c_hello ws) = []"
  by (simp_all add: c_hello_def new_coord_def)

lemma load_hello: "load_data True fs_hello (frag_hello\<lparr>Data := x\<rparr>) = Loaded ''hello''"
  "load_data True fs_hello frag_hello = Loaded ''hello''"
  by (simp_all add: load_data_def fs_hello_def frag_hello_def)

lemma write_hello_ok:
  "write_frag (\<lambda>b. b) ''hello'' [] \<lparr>content = cs, pos = length cs\<rparr> =
     (False, 8192, \<lparr>content = cs @ ''hello'' @ zeros 8187, pos = length cs + 8192\<rparr>, [], [])"
  using write_frag_ok[of "\<lambda>b. b" "''hello''" cs] by (simp add: BufferSize_def)

lemma write_hello_failed:
  "write_frag (\<lambda>b. b) ''hello'' [WErr 3] \<lparr>content = [], pos = 0\<rparr> =
     (True, 3, \<lparr>content = ''hel'', pos = 6\<rparr>, [], [])"
  by (simp add: write_frag_failed_first hello_buf pwrite_def) (simp add: BufferSize_def)

lemma write_hello_retry:
  "write_frag (\<lambda>b. b) ''hello'' [] \<lparr>content = ''hel'', pos = 6\<rparr> =
     (False, 8192, \<lparr>content = ''hel'' @ zeros 3 @ ''hello'' @ zeros 8187, pos = 8198\<rparr>, [], [])"
  by (simp add: write_frag_def BufferSize_def f_Write_def pwrite_def write_rest.simps Let_def
       zeros_def)

lemma write_loop_hello_ok:
  "write_loop (\<lambda>b. b) True DtypeVideo 0 (c_hello []) =
     Some (hello_done (''hello'' @ zeros 8187) 8192)"
proof -
  have w: "written True DtypeVideo 0 (frag_hello\<lparr>Data := Some []\<rparr>) 8192
        ((c_hello [])\<lparr>outf := \<lparr>content = ''hello'' @ zeros 8187, pos = 8192\<rparr>, writes := []\<rparr>) =
      hello_done (''hello'' @ zeros 8187) 8192"
    by (simp add: written_def c_hello_def new_coord_def hello_done_def fs_hello_def
         frag_hello_def Let_def fun_eq_iff)
  have e: "write_loop (\<lambda>b. b) True DtypeVideo 0 (hello_done (''hello'' @ zeros 8187) 8192) =
      Some (hello_done (''hello'' @ zeros 8187) 8192)"
    by (rule write_loop_done) (simp add: hello_done_def new_coord_def)
  have s: "Seq frag_hello = 0" by (simp add: frag_hello_def)
  show ?thesis
    using write_hello_ok[of "[]"]
    by (subst write_loop.simps) (simp add: c_hello_fields s load_hello w[simplified] e[simplified])
qed

lemma write_loop_hello_failed:
  "write_loop (\<lambda>b. b) True DtypeVideo 0 (c_hello [WErr 3]) =
     Some (hello_done (''hel'' @ zeros 3 @ ''hello'' @ zeros 8187) 8198)"
proof -
  let ?c = "(c_hello [WErr 3])\<lparr>outf := \<lparr>content = ''hel'', pos = 6\<rparr>, writes := [],
              dataToWrite := [frag_hello\<lparr>Data := Some []\<rparr>], tries := 9\<rparr>"
  have w: "written True DtypeVideo 0 (frag_hello\<lparr>Data := Some []\<rparr>) 8192
        (?c\<lparr>outf := \<lparr>content = ''hel'' @ zeros 3 @ ''hello'' @ zeros 8187, pos = 8198\<rparr>,
            writes := []\<rparr>) =
      hello_done (''hel'' @ zeros 3 @ ''hello'' @ zeros 8187) 8198"
    by (simp add: written_def c_hello_def new_coord_def hello_done_def fs_hello_def
         frag_hello_def Let_def fun_eq_iff)
  have e: "write_loop (\<lambda>b. b) True DtypeVideo 0
             (hello_done (''hel'' @ zeros 3 @ ''hello'' @ zeros 8187) 8198) =
      Some (hello_done (''hel'' @ zeros 3 @ ''hello'' @ zeros 8187) 8198)"
    by (rule write_loop_done) (simp add: hello_done_def new_coord_def)
  have s: "Seq frag_hello = 0" by (simp add: frag_hello_def)
  have 2: "write_loop (\<lambda>b. b) True DtypeVideo 0 ?c =
      Some (hello_done (''hel'' @ zeros 3 @ ''hello'' @ zeros 8187) 8198)"
    using write_hello_retry
    by (subst write_loop.simps)
       (simp add: c_hello_fields s load_hello w[simplified] e[simplified])
  show ?thesis
    using write_hello_failed
    by (subst write_loop.simps) (simp add: c_hello_fields s load_hello 2[simplified])
qed

text \<open>
  C4, at a write that fails once. The fragment's spill file holds \<open>hello\<close>, the output
  file is empty. Without a failure the fragment is written at offset 0 and the offset
  ends at 8192. When the first write fails after 3 bytes, the offset is at 3 and
  \<open>f.Seek(int64(bytesWritten), 1)\<close> moves it 3 bytes further, to 6; the retry writes the
  fragment there: \<open>cur_frag\<close> advances to 1 in both runs, and after the failure the offset
  ends at 8198, with the 3 bytes of the failed write and a hole of 3 bytes in front of
  the fragment.
\<close>

theorem C4_failed_write_moves_the_offset:
  "write_frag (\<lambda>b. b) ''hello'' [WErr 3] \<lparr>content = [], pos = 0\<rparr> =
     (True, 3, \<lparr>content = ''hel'', pos = 6\<rparr>, [], []) \<and>
   write_loop (\<lambda>b. b) True DtypeVideo 0 (c_hello [WErr 3]) =
     Some (hello_done (''hel'' @ zeros 3 @ ''hello'' @ zeros 8187) 8198) \<and>
   write_loop (\<lambda>b. b) True DtypeVideo 0 (c_hello []) =
     Some (hello_done (''hello'' @ zeros 8187) 8192) \<and>
   curFrag (hello_done (''hel'' @ zeros 3 @ ''hello'' @ zeros 8187) 8198) = 1 \<and>
   pos (outf (hello_done (''hel'' @ zeros 3 @ ''hello'' @ zeros 8187) 8198)) = 8198 \<and>
   pos (outf (hello_done (''hello'' @ zeros 8187) 8192)) = 8192"
  using write_hello_failed write_loop_hello_failed write_loop_hello_ok
  by (simp add: hello_done_def)

end
